theory Spec2Isabelle
  imports Main "HOL-Library.Multiset"
begin

section \<open>Values, rows and their JSON text\<close>

text \<open>
  LocalDatabase stores plain JavaScript objects in IndexedDB object stores and compares
  the objects it reads back through \<^verbatim>\<open>JSON.stringify\<close>. A row is modelled as a flat
  object: the list of its properties in iteration order, each holding \<^verbatim>\<open>null\<close>, a
  boolean, a number or a string. Numbers are the integers (no arithmetic is done on them
  beyond \<^verbatim>\<open>Math.max\<close>, \<^verbatim>\<open>Math.min\<close> and comparison).
\<close>

datatype jsval = JNull | JBool bool | JNum int | JStr string

type_synonym row = "(string \<times> jsval) list"

text \<open>
  \<^verbatim>\<open>JSON.stringify\<close> and \<^verbatim>\<open>JSON.parse\<close> belong to the JavaScript runtime, not to
  the repository. They are modelled on flat rows: a text such as
  \<^verbatim>\<open>{"id":1,"name":"bob"}\<close>, with the double quote and the backslash escaped inside
  strings. The parser accepts the texts the printer writes (no white space) and answers
  \<open>None\<close> where \<^verbatim>\<open>JSON.parse\<close> raises a SyntaxError.
\<close>

definition dquote :: char where
  "dquote = CHR 0x22"

definition backslash :: char where
  "backslash = CHR 0x5C"

definition isDigit :: "char \<Rightarrow> bool" where
  "isDigit c = (c \<in> set ''0123456789'')"

definition digitChar :: "nat \<Rightarrow> char" where
  "digitChar d = ''0123456789'' ! d"

text \<open>The value of a digit is its position among the ten digits.\<close>

definition digitValue :: "char \<Rightarrow> nat" where
  "digitValue c = length (takeWhile (\<lambda>d. d \<noteq> c) ''0123456789'')"

fun showNat :: "nat \<Rightarrow> string" where
  "showNat n = (if n < 10 then [digitChar n] else showNat (n div 10) @ [digitChar (n mod 10)])"

declare showNat.simps [simp del]

definition readNat :: "string \<Rightarrow> nat" where
  "readNat ds = foldl (\<lambda>a c. 10 * a + digitValue c) 0 ds"

fun escape :: "string \<Rightarrow> string" where
  "escape [] = []"
| "escape (c # cs) =
     (if c = dquote \<or> c = backslash then backslash # c # escape cs else c # escape cs)"

definition quote :: "string \<Rightarrow> string" where
  "quote s = dquote # escape s @ [dquote]"

fun stringifyValue :: "jsval \<Rightarrow> string" where
  "stringifyValue JNull = ''null''"
| "stringifyValue (JBool b) = (if b then ''true'' else ''false'')"
| "stringifyValue (JNum n) =
     (if n < 0 then CHR ''-'' # showNat (nat (- n)) else showNat (nat n))"
| "stringifyValue (JStr s) = quote s"

fun stringifyMembers :: "row \<Rightarrow> string" where
  "stringifyMembers [] = []"
| "stringifyMembers [(k, v)] = quote k @ '':'' @ stringifyValue v"
| "stringifyMembers ((k, v) # m) =
     quote k @ '':'' @ stringifyValue v @ '','' @ stringifyMembers m"

definition JSON_stringify :: "row \<Rightarrow> string" where
  "JSON_stringify r = ''{'' @ stringifyMembers r @ ''}''"

fun parseChars :: "string \<Rightarrow> (string \<times> string) option" where
  "parseChars [] = None"
| "parseChars (c # cs) =
     (if c = dquote then Some ([], cs)
      else if c = backslash then
        (case cs of
           [] \<Rightarrow> None
         | d # ds \<Rightarrow> map_option (\<lambda>(s, rest). (d # s, rest)) (parseChars ds))
      else map_option (\<lambda>(s, rest). (c # s, rest)) (parseChars cs))"

definition parseNat :: "string \<Rightarrow> (nat \<times> string) option" where
  "parseNat s =
     (let ds = takeWhile isDigit s
      in if ds = [] then None else Some (readNat ds, dropWhile isDigit s))"

definition parseValue :: "string \<Rightarrow> (jsval \<times> string) option" where
  "parseValue s =
     (case s of
        [] \<Rightarrow> None
      | c # cs \<Rightarrow>
          if c = dquote then map_option (\<lambda>(t, rest). (JStr t, rest)) (parseChars cs)
          else if c = CHR ''-'' then
            map_option (\<lambda>(n, rest). (JNum (- int n), rest)) (parseNat cs)
          else if isDigit c then map_option (\<lambda>(n, rest). (JNum (int n), rest)) (parseNat s)
          else if take 4 s = ''null'' then Some (JNull, drop 4 s)
          else if take 4 s = ''true'' then Some (JBool True, drop 4 s)
          else if take 5 s = ''false'' then Some (JBool False, drop 5 s)
          else None)"

text \<open>
  The members of an object, up to and including the closing brace. The fuel bounds the
  number of members; \<open>JSON_parse\<close> passes the length of the text, which is enough.
\<close>

fun parseMembers :: "nat \<Rightarrow> string \<Rightarrow> row option" where
  "parseMembers 0 s = None"
| "parseMembers (Suc fuel) s =
     (case s of
        [] \<Rightarrow> None
      | c # cs \<Rightarrow>
          if c \<noteq> dquote then None
          else (case parseChars cs of
                  None \<Rightarrow> None
                | Some (k, s1) \<Rightarrow>
                    (case s1 of
                       [] \<Rightarrow> None
                     | c1 # s2 \<Rightarrow>
                         if c1 \<noteq> CHR '':'' then None
                         else (case parseValue s2 of
                                 None \<Rightarrow> None
                               | Some (v, s3) \<Rightarrow>
                                   if s3 = ''}'' then Some [(k, v)]
                                   else (case s3 of
                                           [] \<Rightarrow> None
                                         | c3 # s4 \<Rightarrow>
                                             if c3 = CHR '','' then
                                               map_option ((#) (k, v)) (parseMembers fuel s4)
                                             else None)))))"

definition JSON_parse :: "string \<Rightarrow> row option" where
  "JSON_parse s =
     (case s of
        [] \<Rightarrow> None
      | c # cs \<Rightarrow>
          if c \<noteq> CHR ''{'' then None
          else if cs = ''}'' then Some []
          else parseMembers (length cs) cs)"

text \<open>What may follow a value in a text: anything but a further digit.\<close>

definition endsValue :: "string \<Rightarrow> bool" where
  "endsValue rest = (rest = [] \<or> \<not> isDigit (hd rest))"


section \<open>Errors and outcomes\<close>

text \<open>
  The exceptions the code raises itself (told apart by their message) and the exceptions
  of the JavaScript runtime and of IndexedDB that reach its callers.
\<close>

datatype error =
    NoIndexedDB       \<comment> \<open>init: the browser has no IndexedDB\<close>
  | OpeningError      \<comment> \<open>init: the open request failed\<close>
  | NotInitialised    \<comment> \<open>"The database has not yet been initialised!"\<close>
  | NoTableDefined    \<comment> \<open>"No table defined." / "No store defined."\<close>
  | MissingTable      \<comment> \<open>"The specified table was not found in the schema ..."\<close>
  | UnknownColumn     \<comment> \<open>\<open>_getIndex\<close>: "Errored while trying to find column ..."\<close>
  | StoreError        \<comment> \<open>a failed transaction reported through \<open>txn.onerror\<close>\<close>
  | ConfigurationError \<comment> \<open>TableSchema built without a name or a key column\<close>
  | TypeError
  | SyntaxError
  | DataError
  | ConstraintError
  | NotFoundError
  | InvalidStateError

text \<open>
  What a call of \<open>init\<close>, \<open>add\<close>, \<open>select\<close> or \<open>delete\<close> comes to: it throws before a
  promise exists, or it returns a promise that is resolved, rejected, or never settled.
\<close>

datatype 'a outcome = Throws error | Resolved 'a | Rejected error | Pending

text \<open>
  \<^verbatim>\<open>Promise.all\<close> over promises that are each fulfilled (\<open>Inr\<close>) or rejected (\<open>Inl\<close>): the
  list of values, or the first rejection.
\<close>

fun Promise_all :: "(error + 'a) list \<Rightarrow> error + 'a list" where
  "Promise_all [] = Inr []"
| "Promise_all (Inl e # ps) = Inl e"
| "Promise_all (Inr x # ps) =
     (case Promise_all ps of Inl e \<Rightarrow> Inl e | Inr xs \<Rightarrow> Inr (x # xs))"


section \<open>Schema model\<close>

record ColumnSchemaOptions =
  unique :: bool
  multiEntry :: bool
  column_locale :: "string option"

record ColumnSchema =
  column_name :: string
  options :: ColumnSchemaOptions

definition default_options :: ColumnSchemaOptions where
  "default_options = \<lparr>unique = False, multiEntry = False, column_locale = None\<rparr>"

definition new_ColumnSchema :: "string \<Rightarrow> ColumnSchemaOptions \<Rightarrow> ColumnSchema" where
  "new_ColumnSchema name opts = \<lparr>column_name = name, options = opts\<rparr>"

record TableSchema =
  table_name :: string
  keyColumn :: ColumnSchema
  otherColumns :: "ColumnSchema list"
  autoIncrement :: bool

text \<open>
  The constructor refuses an empty name and a missing key column; duplicate columns only
  print a warning.
\<close>

definition new_TableSchema ::
  "string \<Rightarrow> ColumnSchema option \<Rightarrow> ColumnSchema list \<Rightarrow> bool \<Rightarrow> error + TableSchema" where
  "new_TableSchema name keyCol others autoInc =
     (if name = [] then Inl ConfigurationError
      else case keyCol of
             None \<Rightarrow> Inl ConfigurationError
           | Some k \<Rightarrow>
               Inr \<lparr>table_name = name, keyColumn = k, otherColumns = others,
                    autoIncrement = autoInc\<rparr>)"

record DatabaseSchema =
  database_name :: string
  tables :: "TableSchema list"
  tableMap :: "string \<Rightarrow> TableSchema option"
  tableNames :: "string list"

definition new_DatabaseSchema :: "string \<Rightarrow> TableSchema list \<Rightarrow> DatabaseSchema" where
  "new_DatabaseSchema name tbls =
     \<lparr>database_name = name, tables = tbls,
      tableMap = foldl (\<lambda>m t. m(table_name t \<mapsto> t)) Map.empty tbls,
      tableNames = map table_name tbls\<rparr>"


section \<open>The storage engine\<close>

text \<open>
  IndexedDB is the environment of the code. The model keeps what LocalDatabase relies
  on: databases by name with a version and object stores; an object store with its key
  path, key generator, indexes and records; key ranges; \<^verbatim>\<open>getAll\<close> on an index;
  \<^verbatim>\<open>put\<close>, \<^verbatim>\<open>add\<close> and \<^verbatim>\<open>delete\<close> on a store. Valid keys are numbers and strings, and
  every string is greater than every number. A record is in an index when its property
  at the index's key path is a valid key. \<^verbatim>\<open>getAll\<close> answers in index-key order; the
  model answers in the order of the store's record list, and the properties proved below
  are about which rows are returned and how often, not about their order.
\<close>

definition validKey :: "jsval \<Rightarrow> bool" where
  "validKey v = (case v of JNum n \<Rightarrow> True | JStr s \<Rightarrow> True | _ \<Rightarrow> False)"

definition keyOf :: "string \<Rightarrow> row \<Rightarrow> jsval option" where
  "keyOf keyPath r =
     (case map_of r keyPath of
        None \<Rightarrow> None
      | Some v \<Rightarrow> if validKey v then Some v else None)"

record IDBKeyRange =
  lower :: "int option"
  upper :: "int option"
  lowerOpen :: bool
  upperOpen :: bool

text \<open>
  The three constructors take the bound as the code passes it: \<open>None\<close> is
  \<^verbatim>\<open>undefined\<close>, which is not a valid key and raises a DataError. \<^verbatim>\<open>bound\<close> also
  refuses an empty range.
\<close>

definition IDBKeyRange_bound ::
  "int option \<Rightarrow> int option \<Rightarrow> bool \<Rightarrow> bool \<Rightarrow> error + IDBKeyRange" where
  "IDBKeyRange_bound lo hi loOpen hiOpen =
     (case (lo, hi) of
        (Some l, Some u) \<Rightarrow>
          if u < l \<or> (l = u \<and> (loOpen \<or> hiOpen)) then Inl DataError
          else Inr \<lparr>lower = Some l, upper = Some u, lowerOpen = loOpen, upperOpen = hiOpen\<rparr>
      | _ \<Rightarrow> Inl DataError)"

definition IDBKeyRange_lowerBound :: "int option \<Rightarrow> bool \<Rightarrow> error + IDBKeyRange" where
  "IDBKeyRange_lowerBound lo loOpen =
     (case lo of
        None \<Rightarrow> Inl DataError
      | Some l \<Rightarrow> Inr \<lparr>lower = Some l, upper = None, lowerOpen = loOpen, upperOpen = True\<rparr>)"

definition IDBKeyRange_upperBound :: "int option \<Rightarrow> bool \<Rightarrow> error + IDBKeyRange" where
  "IDBKeyRange_upperBound hi hiOpen =
     (case hi of
        None \<Rightarrow> Inl DataError
      | Some u \<Rightarrow> Inr \<lparr>lower = None, upper = Some u, lowerOpen = True, upperOpen = hiOpen\<rparr>)"

definition IDBKeyRange_includes :: "IDBKeyRange \<Rightarrow> jsval \<Rightarrow> bool" where
  "IDBKeyRange_includes keyRange key =
     (case key of
        JNum k \<Rightarrow>
          (case lower keyRange of
             None \<Rightarrow> True
           | Some l \<Rightarrow> if lowerOpen keyRange then l < k else l \<le> k) \<and>
          (case upper keyRange of
             None \<Rightarrow> True
           | Some u \<Rightarrow> if upperOpen keyRange then k < u else k \<le> u)
      | JStr s \<Rightarrow> upper keyRange = None
      | _ \<Rightarrow> False)"

datatype IDBQuery = Key jsval | KeyRange IDBKeyRange

record IDBIndex =
  index_name :: string
  index_keyPath :: string
  index_unique :: bool
  index_multiEntry :: bool

record IDBObjectStore =
  store_name :: string
  store_keyPath :: string
  store_autoIncrement :: bool
  keyGenerator :: int
  indexes :: "IDBIndex list"
  records :: "row list"

record IDBDatabase =
  database_version :: nat
  objectStores :: "IDBObjectStore list"

type_synonym IDBFactory = "string \<Rightarrow> IDBDatabase option"

definition objectStore :: "IDBDatabase \<Rightarrow> string \<Rightarrow> IDBObjectStore option" where
  "objectStore db name = find (\<lambda>s. store_name s = name) (objectStores db)"

definition store_index :: "IDBObjectStore \<Rightarrow> string \<Rightarrow> IDBIndex option" where
  "store_index store name = find (\<lambda>i. index_name i = name) (indexes store)"

text \<open>
  \<^verbatim>\<open>index.getAll(query)\<close>: \<^verbatim>\<open>null\<close> asks for every record of the index, a valid key
  for the records with that index key, a key range for the records inside it; any other
  value is not a valid key.
\<close>

definition IDBIndex_getAll :: "IDBObjectStore \<Rightarrow> IDBIndex \<Rightarrow> IDBQuery \<Rightarrow> error + row list" where
  "IDBIndex_getAll store index query =
     (case query of
        Key v \<Rightarrow>
          if v = JNull then
            Inr (filter (\<lambda>r. keyOf (index_keyPath index) r \<noteq> None) (records store))
          else if validKey v then
            Inr (filter (\<lambda>r. keyOf (index_keyPath index) r = Some v) (records store))
          else Inl DataError
      | KeyRange keyRange \<Rightarrow>
          Inr (filter (\<lambda>r. case keyOf (index_keyPath index) r of
                             None \<Rightarrow> False
                           | Some k \<Rightarrow> IDBKeyRange_includes keyRange k)
                 (records store)))"

definition createObjectStore ::
  "IDBDatabase \<Rightarrow> string \<Rightarrow> string \<Rightarrow> bool \<Rightarrow> error + IDBObjectStore" where
  "createObjectStore db name keyPath autoInc =
     (if objectStore db name \<noteq> None then Inl ConstraintError
      else Inr \<lparr>store_name = name, store_keyPath = keyPath, store_autoIncrement = autoInc,
                keyGenerator = 1, indexes = [], records = []\<rparr>)"

definition createIndex ::
  "IDBObjectStore \<Rightarrow> string \<Rightarrow> string \<Rightarrow> ColumnSchemaOptions \<Rightarrow> error + IDBObjectStore" where
  "createIndex store name keyPath opts =
     (if store_index store name \<noteq> None then Inl ConstraintError
      else Inr (store\<lparr>indexes := indexes store @
                  [\<lparr>index_name = name, index_keyPath = keyPath, index_unique = unique opts,
                    index_multiEntry = multiEntry opts\<rparr>]\<rparr>))"

text \<open>
  Storing a record. The key is read at the store's key path; a store with a key generator
  supplies a missing key and writes it into the record. \<^verbatim>\<open>add\<close> refuses a key that is
  already stored, both refuse a record that repeats another record's key in a unique
  index. \<open>DataError\<close> is raised by the call itself, \<open>ConstraintError\<close> fails the request
  and with it the transaction.
\<close>

definition violatesUnique :: "IDBObjectStore \<Rightarrow> jsval \<Rightarrow> row \<Rightarrow> bool" where
  "violatesUnique store key object =
     (\<exists>i \<in> set (indexes store). index_unique i \<and>
        (\<exists>r \<in> set (records store).
           keyOf (store_keyPath store) r \<noteq> Some key \<and>
           keyOf (index_keyPath i) r \<noteq> None \<and>
           keyOf (index_keyPath i) r = keyOf (index_keyPath i) object))"

definition storeRecord :: "bool \<Rightarrow> IDBObjectStore \<Rightarrow> row \<Rightarrow> error + IDBObjectStore" where
  "storeRecord noOverwrite store object =
     (case map_of object (store_keyPath store) of
        None \<Rightarrow>
          if store_autoIncrement store then
            (let key = JNum (keyGenerator store);
                 object' = object @ [(store_keyPath store, key)]
             in if violatesUnique store key object' then Inl ConstraintError
                else Inr (store\<lparr>keyGenerator := keyGenerator store + 1,
                                records := records store @ [object']\<rparr>))
          else Inl DataError
      | Some key \<Rightarrow>
          if \<not> validKey key then Inl DataError
          else if noOverwrite \<and> (\<exists>r \<in> set (records store). keyOf (store_keyPath store) r = Some key)
            then Inl ConstraintError
          else if violatesUnique store key object then Inl ConstraintError
          else Inr (store\<lparr>
                 keyGenerator :=
                   (case key of
                      JNum k \<Rightarrow>
                        if store_autoIncrement store \<and> keyGenerator store \<le> k then k + 1
                        else keyGenerator store
                    | _ \<Rightarrow> keyGenerator store),
                 records :=
                   filter (\<lambda>r. keyOf (store_keyPath store) r \<noteq> Some key) (records store)
                     @ [object]\<rparr>))"

definition IDBObjectStore_put :: "IDBObjectStore \<Rightarrow> row \<Rightarrow> error + IDBObjectStore" where
  "IDBObjectStore_put store object = storeRecord False store object"

definition IDBObjectStore_add :: "IDBObjectStore \<Rightarrow> row \<Rightarrow> error + IDBObjectStore" where
  "IDBObjectStore_add store object = storeRecord True store object"

text \<open>\<^verbatim>\<open>store.delete(key)\<close>; the key may be \<^verbatim>\<open>undefined\<close> (\<open>None\<close>), which is no key.\<close>

definition IDBObjectStore_delete :: "IDBObjectStore \<Rightarrow> jsval option \<Rightarrow> error + IDBObjectStore" where
  "IDBObjectStore_delete store key =
     (case key of
        None \<Rightarrow> Inl DataError
      | Some k \<Rightarrow>
          if \<not> validKey k then Inl DataError
          else Inr (store\<lparr>records :=
                 filter (\<lambda>r. keyOf (store_keyPath store) r \<noteq> Some k) (records store)\<rparr>))"

definition replaceStore :: "IDBDatabase \<Rightarrow> IDBObjectStore \<Rightarrow> IDBDatabase" where
  "replaceStore db store =
     db\<lparr>objectStores :=
          map (\<lambda>s. if store_name s = store_name store then store else s) (objectStores db)\<rparr>"


section \<open>LocalDatabase\<close>

text \<open>
  The class keeps its state in static fields: the open database (\<open>instance\<close>) and the
  schema given to \<open>init\<close>. The model threads them, together with the browser's
  IndexedDB (absent in a browser without it) and the list of engine calls made so far,
  through every operation. The instance is a connection to a database of the factory,
  held here as the database's name.
\<close>

datatype mode = Readonly | Readwrite

datatype engine_call =
    DeleteDatabase string
  | Open string nat
  | Transaction string mode

record world =
  window_indexedDB :: "IDBFactory option"
  LocalDatabase_instance :: "string option"
  LocalDatabase_schema :: "DatabaseSchema option"
  calls :: "engine_call list"

definition LocalDatabase_version :: nat where
  "LocalDatabase_version = 1"

subsection \<open>Opening and upgrading\<close>

definition IDBFactory_deleteDatabase :: "IDBFactory \<Rightarrow> string \<Rightarrow> IDBFactory" where
  "IDBFactory_deleteDatabase factory name = factory(name := None)"

text \<open>
  The first event of an open request: a database that does not exist yet, or is older
  than the requested version, is upgraded; one of the requested version is opened as it
  is; a newer one fails the request.
\<close>

datatype open_event = Upgradeneeded IDBDatabase | Success | Failure

definition IDBFactory_open :: "IDBFactory \<Rightarrow> string \<Rightarrow> nat \<Rightarrow> open_event" where
  "IDBFactory_open factory name version =
     (case factory name of
        None \<Rightarrow> Upgradeneeded \<lparr>database_version = 0, objectStores = []\<rparr>
      | Some db \<Rightarrow>
          if version < database_version db then Failure
          else if version = database_version db then Success
          else Upgradeneeded db)"

fun createIndexes :: "IDBObjectStore \<Rightarrow> ColumnSchema list \<Rightarrow> error + IDBObjectStore" where
  "createIndexes tableStore [] = Inr tableStore"
| "createIndexes tableStore (column # columns) =
     (case createIndex tableStore (column_name column) (column_name column) (options column) of
        Inl e \<Rightarrow> Inl e
      | Inr tableStore' \<Rightarrow> createIndexes tableStore' columns)"

fun upgradeTables :: "IDBDatabase \<Rightarrow> TableSchema list \<Rightarrow> error + IDBDatabase" where
  "upgradeTables db [] = Inr db"
| "upgradeTables db (table # rest) =
     (case createObjectStore db (table_name table) (column_name (keyColumn table))
             (autoIncrement table) of
        Inl e \<Rightarrow> Inl e
      | Inr tableStore \<Rightarrow>
          (case createIndexes tableStore (otherColumns table) of
             Inl e \<Rightarrow> Inl e
           | Inr tableStore' \<Rightarrow>
               upgradeTables (db\<lparr>objectStores := objectStores db @ [tableStore']\<rparr>) rest))"

definition upgrade :: "IDBDatabase \<Rightarrow> DatabaseSchema \<Rightarrow> error + IDBDatabase" where
  "upgrade db schema = upgradeTables db (tables schema)"

text \<open>
  \<open>init\<close> stores the schema, asks the engine to delete the database of that name and to
  open it at \<open>LocalDatabase.version\<close>. The handler of \<^verbatim>\<open>upgradeneeded\<close> sets the instance
  and creates the tables; an exception there aborts the upgrade, the database is left as
  it was and the request fails.
\<close>

definition init :: "world \<Rightarrow> DatabaseSchema \<Rightarrow> unit outcome \<times> world" where
  "init w schema =
     (case window_indexedDB w of
        None \<Rightarrow> (Throws NoIndexedDB, w)
      | Some factory \<Rightarrow>
          (let name = database_name schema;
               deleted = IDBFactory_deleteDatabase factory name;
               w1 = w\<lparr>LocalDatabase_schema := Some schema,
                      window_indexedDB := Some deleted,
                      calls := calls w @ [DeleteDatabase name, Open name LocalDatabase_version]\<rparr>
           in case IDBFactory_open deleted name LocalDatabase_version of
                Failure \<Rightarrow> (Rejected OpeningError, w1)
              | Success \<Rightarrow> (Resolved (), w1\<lparr>LocalDatabase_instance := Some name\<rparr>)
              | Upgradeneeded db \<Rightarrow>
                  (case upgrade db schema of
                     Inl e \<Rightarrow> (Rejected OpeningError, w1\<lparr>LocalDatabase_instance := Some name\<rparr>)
                   | Inr db' \<Rightarrow>
                       (Resolved (),
                        w1\<lparr>LocalDatabase_instance := Some name,
                           window_indexedDB :=
                             Some (deleted(name \<mapsto>
                               db'\<lparr>database_version := LocalDatabase_version\<rparr>))\<rparr>))))"

subsection \<open>Transactions\<close>

text \<open>
  \<^verbatim>\<open>LocalDatabase.instance.transaction(table, mode)\<close> followed by
  \<^verbatim>\<open>txn.objectStore(table)\<close>: the object store, or the exception raised when the
  connection has no database behind it or the database has no such store.
\<close>

definition transaction :: "world \<Rightarrow> string \<Rightarrow> mode \<Rightarrow> (error + IDBObjectStore) \<times> world" where
  "transaction w table m =
     (case LocalDatabase_instance w of
        None \<Rightarrow> (Inl TypeError, w)
      | Some name \<Rightarrow>
          (let w' = w\<lparr>calls := calls w @ [Transaction table m]\<rparr>
           in case window_indexedDB w of
                None \<Rightarrow> (Inl InvalidStateError, w')
              | Some factory \<Rightarrow>
                  (case factory name of
                     None \<Rightarrow> (Inl InvalidStateError, w')
                   | Some db \<Rightarrow>
                       (case objectStore db table of
                          None \<Rightarrow> (Inl NotFoundError, w')
                        | Some store \<Rightarrow> (Inr store, w')))))"

text \<open>A write transaction that completes leaves its object store in the database.\<close>

definition commit :: "world \<Rightarrow> IDBObjectStore \<Rightarrow> world" where
  "commit w store =
     (case (LocalDatabase_instance w, window_indexedDB w) of
        (Some name, Some factory) \<Rightarrow>
          (case factory name of
             None \<Rightarrow> w
           | Some db \<Rightarrow> w\<lparr>window_indexedDB := Some (factory(name \<mapsto> replaceStore db store))\<rparr>)
      | _ \<Rightarrow> w)"

subsection \<open>add\<close>

record AddOptions =
  upsert :: bool

definition add :: "world \<Rightarrow> string \<Rightarrow> row \<Rightarrow> AddOptions \<Rightarrow> unit outcome \<times> world" where
  "add w table object opts =
     (if LocalDatabase_instance w = None then (Throws NotInitialised, w)
      else if table = [] then (Throws NoTableDefined, w)
      else case LocalDatabase_schema w of
        None \<Rightarrow> (Throws TypeError, w)
      | Some schema \<Rightarrow>
          if table \<notin> set (tableNames schema) then (Throws MissingTable, w)
          else (case transaction w table Readwrite of
                  (Inl e, w1) \<Rightarrow> (Rejected e, w1)
                | (Inr store, w1) \<Rightarrow>
                    (case (if upsert opts then IDBObjectStore_put store object
                           else IDBObjectStore_add store object) of
                       Inl e \<Rightarrow> (Rejected (if e = DataError then DataError else StoreError), w1)
                     | Inr store' \<Rightarrow> (Resolved (), commit w1 store'))))"

subsection \<open>The helpers of select\<close>

definition getIndex :: "IDBObjectStore \<Rightarrow> string \<Rightarrow> error + IDBIndex" where
  "getIndex store name =
     (case store_index store name of None \<Rightarrow> Inl UnknownColumn | Some index \<Rightarrow> Inr index)"

definition intersect :: "'a list \<Rightarrow> 'a list \<Rightarrow> 'a list" where
  "intersect baseArray arrayToMerge = filter (\<lambda>entry. entry \<in> set baseArray) arrayToMerge"

definition difference :: "'a list \<Rightarrow> 'a list \<Rightarrow> 'a list" where
  "difference baseArray arrayToCompare =
     filter (\<lambda>entry. entry \<notin> set arrayToCompare) baseArray"

definition stringifyArrayElements :: "row list \<Rightarrow> string list" where
  "stringifyArrayElements array = map JSON_stringify array"

fun parseArrayElements :: "string list \<Rightarrow> error + row list" where
  "parseArrayElements [] = Inr []"
| "parseArrayElements (element # array) =
     (case JSON_parse element of
        None \<Rightarrow> Inl SyntaxError
      | Some r \<Rightarrow>
          (case parseArrayElements array of Inl e \<Rightarrow> Inl e | Inr rs \<Rightarrow> Inr (r # rs)))"

text \<open>
  A column entry of a query: \<^verbatim>\<open>undefined\<close>, a value (\<^verbatim>\<open>null\<close> or a primitive), or an
  object whose properties \<^verbatim>\<open>$gt\<close>, \<^verbatim>\<open>$gte\<close>, \<^verbatim>\<open>$lt\<close>, \<^verbatim>\<open>$lte\<close> and \<^verbatim>\<open>$ne\<close> are each
  present or \<^verbatim>\<open>undefined\<close> (\<open>None\<close>). The four bounds are numbers.
\<close>

record operators =
  gt :: "int option"
  gte :: "int option"
  lt :: "int option"
  lte :: "int option"
  ne :: "jsval option"

datatype column_entry = Undefined | Value jsval | Operators operators

type_synonym query = "(string \<times> column_entry) list"

type_synonym clause = "string \<times> IDBQuery"

fun typeof :: "column_entry \<Rightarrow> string" where
  "typeof Undefined = ''undefined''"
| "typeof (Value JNull) = ''object''"
| "typeof (Value (JBool b)) = ''boolean''"
| "typeof (Value (JNum n)) = ''number''"
| "typeof (Value (JStr s)) = ''string''"
| "typeof (Operators ops) = ''object''"

definition isPrimitive :: "column_entry \<Rightarrow> bool" where
  "isPrimitive variable =
     (typeof variable \<in> set [''number'', ''string'', ''boolean'', ''bigint'', ''symbol''])"


subsection \<open>select: from the query to the clauses\<close>

text \<open>
  The body of the loop over \<^verbatim>\<open>Object.entries(query)\<close>. It pushes onto
  \<open>additiveQueries\<close> and \<open>subtractiveQueries\<close>; reading \<^verbatim>\<open>$gt\<close> of \<^verbatim>\<open>undefined\<close> raises
  a TypeError and a key range built from an invalid bound raises a DataError. The three
  tests on \<open>lessThan\<close> and \<open>greaterThan\<close> exclude each other, so at most one key range
  is built and pushed; \<open>rangeQueries\<close> is what they push for one column.
\<close>

definition effectiveGreaterThan :: "operators \<Rightarrow> int option" where
  "effectiveGreaterThan columnEntry =
     (let greaterThan = (if gt columnEntry \<noteq> None then gt columnEntry else gte columnEntry)
      in if gt columnEntry \<noteq> None \<and> gte columnEntry \<noteq> None
         then Some (max (the (gt columnEntry)) (the (gte columnEntry)))
         else greaterThan)"

definition effectiveLessThan :: "operators \<Rightarrow> int option" where
  "effectiveLessThan columnEntry =
     (let lessThan = (if lt columnEntry \<noteq> None then lt columnEntry else lte columnEntry)
      in if lt columnEntry \<noteq> None \<and> lte columnEntry \<noteq> None
         then Some (min (the (lt columnEntry)) (the (lte columnEntry)))
         else lessThan)"

definition rangeQueries :: "string \<Rightarrow> operators \<Rightarrow> error + clause list" where
  "rangeQueries columnName columnEntry =
     (let greaterThan = effectiveGreaterThan columnEntry;
          isGte = (greaterThan = gte columnEntry);
          lessThan = effectiveLessThan columnEntry;
          isLte = (lessThan = lte columnEntry)
      in if lessThan \<noteq> None \<and> greaterThan \<noteq> None then
           (case IDBKeyRange_bound greaterThan lessThan (\<not> isGte) (\<not> isLte) of
              Inl e \<Rightarrow> Inl e
            | Inr r \<Rightarrow> Inr [(columnName, KeyRange r)])
         else if lessThan \<noteq> None \<and> greaterThan = None then
           (case IDBKeyRange_upperBound (lt columnEntry) (\<not> isLte) of
              Inl e \<Rightarrow> Inl e
            | Inr r \<Rightarrow> Inr [(columnName, KeyRange r)])
         else if lessThan = None \<and> greaterThan \<noteq> None then
           (case IDBKeyRange_lowerBound (gt columnEntry) (\<not> isGte) of
              Inl e \<Rightarrow> Inl e
            | Inr r \<Rightarrow> Inr [(columnName, KeyRange r)])
         else Inr [])"

definition destructureEntry ::
  "clause list \<times> clause list \<Rightarrow> string \<times> column_entry \<Rightarrow>
     error + (clause list \<times> clause list)" where
  "destructureEntry queries entry =
     (case queries of (additiveQueries, subtractiveQueries) \<Rightarrow>
      case entry of (columnName, columnEntry) \<Rightarrow>
        if isPrimitive columnEntry \<or> columnEntry = Value JNull then
          (case columnEntry of
             Value v \<Rightarrow> Inr (additiveQueries @ [(columnName, Key v)], subtractiveQueries)
           | _ \<Rightarrow> Inl TypeError)
        else
          (case columnEntry of
             Operators ops \<Rightarrow>
               (case rangeQueries columnName ops of
                  Inl e \<Rightarrow> Inl e
                | Inr pushed \<Rightarrow>
                    Inr (additiveQueries @ pushed,
                         subtractiveQueries @
                           (case ne ops of None \<Rightarrow> [] | Some v \<Rightarrow> [(columnName, Key v)])))
           | _ \<Rightarrow> Inl TypeError))"

fun destructureQuery ::
  "clause list \<times> clause list \<Rightarrow> query \<Rightarrow> error + (clause list \<times> clause list)" where
  "destructureQuery queries [] = Inr queries"
| "destructureQuery queries (entry # entries) =
     (case destructureEntry queries entry of
        Inl e \<Rightarrow> Inl e
      | Inr queries' \<Rightarrow> destructureQuery queries' entries)"

subsection \<open>select: the scans\<close>

text \<open>
  One promise per clause: it is rejected when the column has no index or the engine
  refuses the query, and fulfilled with the rows of the scan otherwise.
\<close>

definition scan :: "IDBObjectStore \<Rightarrow> clause \<Rightarrow> error + row list" where
  "scan store q =
     (case getIndex store (fst q) of
        Inl e \<Rightarrow> Inl e
      | Inr index \<Rightarrow> IDBIndex_getAll store index (snd q))"

definition getPromisesFromQueryArray ::
  "world \<Rightarrow> string \<Rightarrow> clause list \<Rightarrow> (error + (error + row list) list) \<times> world" where
  "getPromisesFromQueryArray w table queryArray =
     (case transaction w table Readonly of
        (Inl e, w') \<Rightarrow> (Inl e, w')
      | (Inr store, w') \<Rightarrow> (Inr (map (scan store) queryArray), w'))"

subsection \<open>select: merging the results\<close>

text \<open>
  \<^verbatim>\<open>arrayOfArrays.reduce(..., _stringifyArrayElements(arrayOfArrays[0]))\<close>: the callback
  runs on every batch, the first included, and the flag \<open>isFirst\<close> makes it skip that
  one. On an empty list \<^verbatim>\<open>arrayOfArrays[0]\<close> is \<^verbatim>\<open>undefined\<close> and stringifying its
  elements raises a TypeError.
\<close>

definition intersectAndStringifyArrayOfArrays :: "row list list \<Rightarrow> error + string list" where
  "intersectAndStringifyArrayOfArrays arrayOfArrays =
     (case arrayOfArrays of
        [] \<Rightarrow> Inl TypeError
      | first # others \<Rightarrow>
          Inr (snd (foldl
                 (\<lambda>(isFirst, accumulation) current.
                    if isFirst then (False, accumulation)
                    else (False, intersect accumulation (stringifyArrayElements current)))
                 (True, stringifyArrayElements first) arrayOfArrays)))"

datatype result = ResultUndefined | Rows "row list"

text \<open>
  The callback given to \<^verbatim>\<open>Promise.all(additivePromises).then\<close>. An exception inside it,
  or a rejected scan of a subtractive query, leaves the promise of \<open>select\<close> unsettled:
  nothing calls \<open>success\<close> or \<open>reject\<close> any more.
\<close>

definition mergeResults ::
  "clause list \<Rightarrow> (error + row list) list \<Rightarrow> row list list \<Rightarrow> result outcome" where
  "mergeResults subtractiveQueries subtractivePromises additiveResult =
     (if length subtractiveQueries = 0 \<and> length additiveResult \<le> 1 then
        Resolved (case additiveResult of [] \<Rightarrow> ResultUndefined | batch # _ \<Rightarrow> Rows batch)
      else
        (case intersectAndStringifyArrayOfArrays additiveResult of
           Inl e \<Rightarrow> Pending
         | Inr stringifiedAdditiveResults \<Rightarrow>
             if length subtractivePromises = 0 then
               (case parseArrayElements stringifiedAdditiveResults of
                  Inl e \<Rightarrow> Pending
                | Inr rows \<Rightarrow> Resolved (Rows rows))
             else
               (case Promise_all subtractivePromises of
                  Inl e \<Rightarrow> Pending
                | Inr subtractiveResult \<Rightarrow>
                    (case intersectAndStringifyArrayOfArrays subtractiveResult of
                       Inl e \<Rightarrow> Pending
                     | Inr stringifiedSubtractiveResults \<Rightarrow>
                         (case parseArrayElements
                                 (difference stringifiedAdditiveResults
                                    stringifiedSubtractiveResults) of
                            Inl e \<Rightarrow> Pending
                          | Inr rows \<Rightarrow> Resolved (Rows rows))))))"

subsection \<open>select and delete\<close>

definition select :: "world \<Rightarrow> string \<Rightarrow> query \<Rightarrow> result outcome \<times> world" where
  "select w table query =
     (if LocalDatabase_instance w = None then (Throws NotInitialised, w)
      else if table = [] then (Throws NoTableDefined, w)
      else case LocalDatabase_schema w of
        None \<Rightarrow> (Throws TypeError, w)
      | Some schema \<Rightarrow>
          if table \<notin> set (tableNames schema) then (Throws MissingTable, w)
          else (case destructureQuery ([], []) query of
                  Inl e \<Rightarrow> (Rejected e, w)
                | Inr (additiveQueries, subtractiveQueries) \<Rightarrow>
                    (case getPromisesFromQueryArray w table additiveQueries of
                       (Inl e, w1) \<Rightarrow> (Rejected e, w1)
                     | (Inr additivePromises, w1) \<Rightarrow>
                         (case getPromisesFromQueryArray w1 table subtractiveQueries of
                            (Inl e, w2) \<Rightarrow> (Rejected e, w2)
                          | (Inr subtractivePromises, w2) \<Rightarrow>
                              (case Promise_all additivePromises of
                                 Inl e \<Rightarrow> (Pending, w2)
                               | Inr additiveResult \<Rightarrow>
                                   (mergeResults subtractiveQueries subtractivePromises
                                      additiveResult, w2))))))"

text \<open>
  The loop of \<open>delete\<close> over the keys of the selected rows: one write transaction and one
  promise per key.
\<close>

fun deleteKeys ::
  "world \<Rightarrow> string \<Rightarrow> jsval option list \<Rightarrow> (error + unit) list \<times> world" where
  "deleteKeys w name [] = ([], w)"
| "deleteKeys w name (key # keyArray) =
     (case transaction w name Readwrite of
        (Inl e, w1) \<Rightarrow>
          (case deleteKeys w1 name keyArray of (ps, w2) \<Rightarrow> (Inl e # ps, w2))
      | (Inr store, w1) \<Rightarrow>
          (case IDBObjectStore_delete store key of
             Inl e \<Rightarrow>
               (case deleteKeys w1 name keyArray of (ps, w2) \<Rightarrow> (Inl e # ps, w2))
           | Inr store' \<Rightarrow>
               (case deleteKeys (commit w1 store') name keyArray of
                  (ps, w2) \<Rightarrow> (Inr () # ps, w2))))"

definition delete :: "world \<Rightarrow> string \<Rightarrow> query \<Rightarrow> unit outcome \<times> world" where
  "delete w table query =
     (if LocalDatabase_instance w = None then (Throws NotInitialised, w)
      else if table = [] then (Throws NoTableDefined, w)
      else case LocalDatabase_schema w of
        None \<Rightarrow> (Throws TypeError, w)
      | Some schema \<Rightarrow>
          if table \<notin> set (tableNames schema) then (Throws MissingTable, w)
          else (case select w table query of
                  (Throws e, w1) \<Rightarrow> (Rejected e, w1)
                | (Rejected e, w1) \<Rightarrow> (Pending, w1)
                | (Pending, w1) \<Rightarrow> (Pending, w1)
                | (Resolved ResultUndefined, w1) \<Rightarrow> (Pending, w1)
                | (Resolved (Rows results), w1) \<Rightarrow>
                    (case tableMap schema table of
                       None \<Rightarrow> (Pending, w1)
                     | Some tableSchema \<Rightarrow>
                         (let keyCol = column_name (keyColumn tableSchema);
                              keyArray = map (\<lambda>entry. map_of entry keyCol) results
                          in case deleteKeys w1 (table_name tableSchema) keyArray of
                               (deletePromises, w2) \<Rightarrow>
                                 (case Promise_all deletePromises of
                                    Inl e \<Rightarrow> (Pending, w2)
                                  | Inr resolution \<Rightarrow> (Resolved (), w2))))))"


section \<open>Notions used in the properties\<close>

text \<open>
  An initialised LocalDatabase whose schema names the table and whose open database holds
  the object store of that name.
\<close>

definition ready :: "world \<Rightarrow> string \<Rightarrow> IDBObjectStore \<Rightarrow> bool" where
  "ready w table store =
     (table \<noteq> [] \<and>
      (case LocalDatabase_instance w of
         None \<Rightarrow> False
       | Some name \<Rightarrow>
           (case LocalDatabase_schema w of
              None \<Rightarrow> False
            | Some schema \<Rightarrow>
                table \<in> set (tableNames schema) \<and>
                (case window_indexedDB w of
                   None \<Rightarrow> False
                 | Some factory \<Rightarrow>
                     (case factory name of
                        None \<Rightarrow> False
                      | Some db \<Rightarrow> objectStore db table = Some store)))))"

text \<open>The rows a table holds, read through the open database.\<close>

definition storedRows :: "world \<Rightarrow> string \<Rightarrow> row list" where
  "storedRows w table =
     (case LocalDatabase_instance w of
        None \<Rightarrow> []
      | Some name \<Rightarrow>
          (case window_indexedDB w of
             None \<Rightarrow> []
           | Some factory \<Rightarrow>
               (case factory name of
                  None \<Rightarrow> []
                | Some db \<Rightarrow>
                    (case objectStore db table of
                       None \<Rightarrow> []
                     | Some store \<Rightarrow> records store))))"

text \<open>The rows of the last batch that occur in every batch.\<close>

definition intersection :: "row list list \<Rightarrow> row list" where
  "intersection batches = filter (\<lambda>r. \<forall>b\<in>set batches. r \<in> set b) (last batches)"

text \<open>
  Two outcomes of \<open>select\<close> that deliver the same set of rows, or fail alike: both throw
  the same error, both are rejected, or both stay unsettled.
\<close>

fun sameRows :: "result outcome \<Rightarrow> result outcome \<Rightarrow> bool" where
  "sameRows (Resolved (Rows xs)) (Resolved (Rows ys)) = (set xs = set ys)"
| "sameRows (Resolved ResultUndefined) (Resolved ResultUndefined) = True"
| "sameRows (Rejected e) (Rejected e') = True"
| "sameRows Pending Pending = True"
| "sameRows (Throws e) (Throws e') = (e = e')"
| "sameRows a b = False"

text \<open>
  A query of equality fields only: every entry is a number or a string, the values the
  engine accepts as keys. Such an entry becomes the clause that looks its value up.
\<close>

definition equalityQuery :: "query \<Rightarrow> bool" where
  "equalityQuery q =
     list_all (\<lambda>entry. case snd entry of Value v \<Rightarrow> validKey v | _ \<Rightarrow> False) q"

fun equalityClause :: "string \<times> column_entry \<Rightarrow> clause" where
  "equalityClause (columnName, Value v) = (columnName, Key v)"
| "equalityClause (columnName, other) = (columnName, Key JNull)"

text \<open>A row matches an equality field when its property holds the field's value.\<close>

definition matches :: "row \<Rightarrow> string \<times> column_entry \<Rightarrow> bool" where
  "matches r entry =
     (case snd entry of Value v \<Rightarrow> map_of r (fst entry) = Some v | _ \<Rightarrow> False)"

text \<open>
  A column the store indexes under its own name, as \<open>upgrade\<close> creates the indexes.
\<close>

definition indexedColumn :: "IDBObjectStore \<Rightarrow> string \<Rightarrow> bool" where
  "indexedColumn store columnName =
     (case store_index store columnName of
        None \<Rightarrow> False
      | Some index \<Rightarrow> index_keyPath index = columnName)"

text \<open>
  What the merger keeps of the last inclusion batch: the rows that occur in every inclusion
  batch and, when there are exclusion batches, do not occur in all of them.
\<close>

definition kept :: "row list list \<Rightarrow> row list list \<Rightarrow> row \<Rightarrow> bool" where
  "kept inclusion exclusion r =
     ((\<forall>b\<in>set inclusion. r \<in> set b) \<and>
      \<not> (exclusion \<noteq> [] \<and> (\<forall>b\<in>set exclusion. r \<in> set b)))"

text \<open>
  An exclusion clause the engine can scan: an indexed column and an excluded value that is
  a number or a string. A row is excluded by such a clause when its property holds the
  excluded value.
\<close>

definition exclusionClause :: "IDBObjectStore \<Rightarrow> clause \<Rightarrow> bool" where
  "exclusionClause store q =
     (indexedColumn store (fst q) \<and>
      (case snd q of Key v \<Rightarrow> validKey v | KeyRange keyRange \<Rightarrow> False))"

definition excludedBy :: "row \<Rightarrow> clause \<Rightarrow> bool" where
  "excludedBy r q =
     (case snd q of Key v \<Rightarrow> map_of r (fst q) = Some v | KeyRange keyRange \<Rightarrow> False)"

text \<open>The outcome of select once its three guards are passed.\<close>

definition selectOutcome :: "world \<Rightarrow> string \<Rightarrow> query \<Rightarrow> result outcome" where
  "selectOutcome w table query =
     (case destructureQuery ([], []) query of
        Inl e \<Rightarrow> Rejected e
      | Inr (additiveQueries, subtractiveQueries) \<Rightarrow>
          (case fst (transaction w table Readonly) of
             Inl e \<Rightarrow> Rejected e
           | Inr store \<Rightarrow>
               (case Promise_all (map (scan store) additiveQueries) of
                  Inl e \<Rightarrow> Pending
                | Inr additiveResult \<Rightarrow>
                    mergeResults subtractiveQueries (map (scan store) subtractiveQueries)
                      additiveResult)))"

subsection \<open>The example page of the repository\<close>

text \<open>
  The page shipped with the library builds a table People with key column \<open>id\<close> and
  the columns \<open>firstName\<close>, \<open>lastName\<close> and \<open>age\<close>, initialises the database
  MyDatabase and adds people to it. The worlds below are used to run the operations on
  concrete inputs.
\<close>

definition peopleTable :: TableSchema where
  "peopleTable =
     \<lparr>table_name = ''People'',
      keyColumn = new_ColumnSchema ''id'' (default_options\<lparr>unique := True\<rparr>),
      otherColumns = [new_ColumnSchema ''firstName'' default_options,
                      new_ColumnSchema ''lastName'' default_options,
                      new_ColumnSchema ''age'' default_options],
      autoIncrement = False\<rparr>"

definition dbSchema :: DatabaseSchema where
  "dbSchema = new_DatabaseSchema ''MyDatabase'' [peopleTable]"

definition browser :: world where
  "browser = \<lparr>window_indexedDB = Some Map.empty, LocalDatabase_instance = None,
              LocalDatabase_schema = None, calls = []\<rparr>"

definition person :: "int \<Rightarrow> string \<Rightarrow> string \<Rightarrow> int \<Rightarrow> row" where
  "person i f l a =
     [(''id'', JNum i), (''firstName'', JStr f), (''lastName'', JStr l), (''age'', JNum a)]"

definition people :: "row list" where
  "people = [person 1 ''John'' ''Doe'' 42, person 6 ''John'' ''Gilmore'' 69,
             person 5 ''John'' ''Robson'' 69, person 3 ''Harry'' ''Gilmore'' 30]"

definition peopleStore :: "row list \<Rightarrow> IDBObjectStore" where
  "peopleStore rows =
     \<lparr>store_name = ''People'', store_keyPath = ''id'', store_autoIncrement = False,
      keyGenerator = 1,
      indexes =
        [\<lparr>index_name = ''firstName'', index_keyPath = ''firstName'', index_unique = False,
          index_multiEntry = False\<rparr>,
         \<lparr>index_name = ''lastName'', index_keyPath = ''lastName'', index_unique = False,
          index_multiEntry = False\<rparr>,
         \<lparr>index_name = ''age'', index_keyPath = ''age'', index_unique = False,
          index_multiEntry = False\<rparr>],
      records = rows\<rparr>"

text \<open>The world in which MyDatabase is open and People holds the given rows.\<close>

definition peopleWorld :: "row list \<Rightarrow> engine_call list \<Rightarrow> world" where
  "peopleWorld rows cs =
     \<lparr>window_indexedDB =
        Some (Map.empty(''MyDatabase'' \<mapsto>
                \<lparr>database_version = 1, objectStores = [peopleStore rows]\<rparr>)),
      LocalDatabase_instance = Some ''MyDatabase'',
      LocalDatabase_schema = Some dbSchema,
      calls = cs\<rparr>"

text \<open>
  The world the example page reaches: \<open>init\<close> in a browser without databases, then
  one \<open>add\<close> per person.
\<close>

definition examplePage :: world where
  "examplePage =
     foldl (\<lambda>w object. snd (add w ''People'' object \<lparr>upsert = True\<rparr>))
       (snd (init browser dbSchema)) people"

text \<open>A fifth person, a John of 69 whose last name is \<^verbatim>\<open>null\<close>.\<close>

definition anonymous :: row where
  "anonymous =
     [(''id'', JNum 7), (''firstName'', JStr ''John''), (''lastName'', JNull),
      (''age'', JNum 69)]"


section \<open>JSON texts are read back as written\<close>

lemma digit_lt10: "d < 10 \<Longrightarrow> d \<in> {0,1,2,3,4,5,6,7,8,9::nat}"
  by auto

lemma digitChar_props:
  assumes "d < 10"
  shows "isDigit (digitChar d)" and "digitValue (digitChar d) = d"
  using digit_lt10 [OF assms]
  by (auto simp: isDigit_def digitChar_def digitValue_def)

lemma showNat_digits: "\<forall>c\<in>set (showNat n). isDigit c"
  by (induction n rule: showNat.induct) (subst showNat.simps, auto simp: digitChar_props)

lemma showNat_nonempty: "showNat n \<noteq> []"
  by (subst showNat.simps) simp

lemma readNat_snoc: "readNat (ds @ [c]) = 10 * readNat ds + digitValue c"
  by (simp add: readNat_def)

lemma readNat_showNat: "readNat (showNat n) = n"
proof (induction n rule: showNat.induct)
  case (1 n)
  show ?case
  proof (cases "n < 10")
    case True
    then show ?thesis
      by (subst showNat.simps) (simp add: readNat_def digitChar_props)
  next
    case False
    with 1 show ?thesis
      by (subst showNat.simps) (simp add: readNat_snoc digitChar_props)
  qed
qed

lemma parseNat_showNat:
  assumes "rest = [] \<or> \<not> isDigit (hd rest)"
  shows "parseNat (showNat n @ rest) = Some (n, rest)"
proof -
  have tw: "takeWhile isDigit (showNat n @ rest) = showNat n"
    using assms showNat_digits [of n] by (cases rest) (auto simp: takeWhile_append2 dest: bspec)
  have dw: "dropWhile isDigit (showNat n @ rest) = rest"
    using assms showNat_digits [of n] by (cases rest) (auto simp: dropWhile_append2 dest: bspec)
  show ?thesis
    by (simp add: parseNat_def tw dw showNat_nonempty readNat_showNat)
qed

lemma parseChars_escape: "parseChars (escape s @ dquote # rest) = Some (s, rest)"
  by (induction s) (auto simp: dquote_def backslash_def)


lemma showNat_hd_digit: "isDigit (hd (showNat n))"
  using showNat_digits [of n] showNat_nonempty [of n] by (cases "showNat n") auto

lemma parseValue_stringifyValue:
  assumes "endsValue rest"
  shows "parseValue (stringifyValue v @ rest) = Some (v, rest)"
proof (cases v)
  case JNull
  then show ?thesis by (simp add: parseValue_def dquote_def isDigit_def)
next
  case (JBool b)
  then show ?thesis by (simp add: parseValue_def dquote_def isDigit_def)
next
  case (JNum n)
  show ?thesis
  proof (cases "n < 0")
    case True
    then show ?thesis
      using assms JNum
      by (simp add: parseValue_def dquote_def parseNat_showNat endsValue_def)
  next
    case False
    obtain c cs where sn: "showNat (nat n) = c # cs"
      using showNat_nonempty [of "nat n"] by (cases "showNat (nat n)") auto
    have dc: "isDigit c"
      using showNat_hd_digit [of "nat n"] sn by simp
    have ne: "c \<noteq> dquote" "c \<noteq> CHR ''-''"
      using dc by (auto simp: isDigit_def dquote_def)
    have "parseNat (c # cs @ rest) = Some (nat n, rest)"
      using parseNat_showNat [of rest "nat n"] assms sn by (simp add: endsValue_def)
    then show ?thesis
      using False JNum sn dc ne by (simp add: parseValue_def)
  qed
next
  case (JStr s)
  then show ?thesis
    by (simp add: parseValue_def quote_def parseChars_escape)
qed

lemma stringifyMembers_Cons:
  "stringifyMembers ((k, v) # m) =
     quote k @ '':'' @ stringifyValue v @ (if m = [] then [] else '','' @ stringifyMembers m)"
  by (cases m) auto

lemma parseMembers_stringifyMembers:
  "r \<noteq> [] \<Longrightarrow> length r \<le> fuel \<Longrightarrow>
     parseMembers fuel (stringifyMembers r @ ''}'') = Some r"
proof (induction r arbitrary: fuel)
  case Nil
  then show ?case by simp
next
  case (Cons kv m)
  obtain k v where kv: "kv = (k, v)" by (cases kv)
  obtain n where fuel: "fuel = Suc n" and n: "length m \<le> n"
    using Cons.prems by (cases fuel) auto
  show ?case
  proof (cases "m = []")
    case True
    have "parseValue (stringifyValue v @ ''}'') = Some (v, ''}'')"
      by (rule parseValue_stringifyValue) (simp add: endsValue_def isDigit_def)
    then show ?thesis
      using True kv fuel by (simp add: quote_def parseChars_escape)
  next
    case False
    have pv: "parseValue (stringifyValue v @ '','' @ stringifyMembers m @ ''}'') =
                Some (v, '','' @ stringifyMembers m @ ''}'')"
      by (rule parseValue_stringifyValue) (simp add: endsValue_def isDigit_def)
    have ih: "parseMembers n (stringifyMembers m @ ''}'') = Some m"
      using Cons.IH [OF False n] .
    show ?thesis
      using False kv fuel pv ih
      by (simp add: stringifyMembers_Cons quote_def parseChars_escape)
  qed
qed

lemma stringifyMembers_length: "length r \<le> length (stringifyMembers r)"
  by (induction r rule: stringifyMembers.induct) (auto simp: quote_def)

lemma stringifyMembers_hd: "r \<noteq> [] \<Longrightarrow> stringifyMembers r @ ''}'' \<noteq> ''}''"
  by (cases r rule: stringifyMembers.cases) (auto simp: quote_def)

lemma JSON_parse_stringify: "JSON_parse (JSON_stringify r) = Some r"
proof (cases "r = []")
  case True
  then show ?thesis by (simp add: JSON_parse_def JSON_stringify_def)
next
  case False
  have "length r \<le> length (stringifyMembers r @ ''}'')"
    using stringifyMembers_length [of r] by simp
  then show ?thesis
    using False parseMembers_stringifyMembers [of r "length (stringifyMembers r @ ''}'')"]
      stringifyMembers_hd [OF False]
    by (simp add: JSON_parse_def JSON_stringify_def)
qed

lemma JSON_stringify_inject: "JSON_stringify r = JSON_stringify r' \<longleftrightarrow> r = r'"
  by (metis JSON_parse_stringify option.inject)

section \<open>The merge in terms of rows\<close>

lemma stringify_mem:
  "JSON_stringify r \<in> set (stringifyArrayElements b) \<longleftrightarrow> r \<in> set b"
  by (auto simp: stringifyArrayElements_def JSON_stringify_inject)

lemma parseArrayElements_stringify:
  "parseArrayElements (stringifyArrayElements rs) = Inr rs"
  by (induction rs) (simp_all add: stringifyArrayElements_def JSON_parse_stringify)

lemma filter_stringify:
  "filter P (stringifyArrayElements b) =
     stringifyArrayElements (filter (\<lambda>r. P (JSON_stringify r)) b)"
  by (simp add: stringifyArrayElements_def filter_map comp_def)

lemma reduce_skips_first:
  "foldl (\<lambda>(isFirst, accumulation) current.
            if isFirst then (False, accumulation) else (False, f accumulation current))
     (False, a) bs = (False, foldl f a bs)"
  by (induction bs arbitrary: a) simp_all

lemma intersectAndStringify_Cons:
  "intersectAndStringifyArrayOfArrays (first # others) =
     Inr (foldl (\<lambda>accumulation current. intersect accumulation (stringifyArrayElements current))
            (stringifyArrayElements first) others)"
  by (simp add: intersectAndStringifyArrayOfArrays_def reduce_skips_first)

lemma foldl_intersect:
  "foldl (\<lambda>accumulation current. intersect accumulation (stringifyArrayElements current))
     (stringifyArrayElements (filter (\<lambda>r. \<forall>b\<in>set seen. r \<in> set b) first)) others =
   stringifyArrayElements
     (filter (\<lambda>r. \<forall>b\<in>set (seen @ first # others). r \<in> set b) (last (first # others)))"
proof (induction others arbitrary: first seen)
  case Nil
  show ?case
    by (simp cong: filter_cong)
next
  case (Cons b bs)
  have step: "intersect (stringifyArrayElements (filter (\<lambda>r. \<forall>b\<in>set seen. r \<in> set b) first))
                (stringifyArrayElements b) =
              stringifyArrayElements (filter (\<lambda>r. \<forall>c\<in>set (seen @ [first]). r \<in> set c) b)"
    by (auto simp: intersect_def filter_stringify stringify_mem
          intro!: arg_cong [where f = stringifyArrayElements] filter_cong)
  show ?case
    using Cons.IH [of "seen @ [first]" b] by (simp add: step)
qed

lemma intersectAndStringify_rows:
  assumes "batches \<noteq> []"
  shows "intersectAndStringifyArrayOfArrays batches =
           Inr (stringifyArrayElements (intersection batches))"
proof -
  obtain first others where b: "batches = first # others"
    using assms by (cases batches) auto
  show ?thesis
    using foldl_intersect [of "[]" first others]
    by (simp add: b intersectAndStringify_Cons intersection_def)
qed

lemma set_intersection:
  "batches \<noteq> [] \<Longrightarrow> set (intersection batches) = {r. \<forall>b\<in>set batches. r \<in> set b}"
  by (auto simp: intersection_def)

lemma difference_stringify:
  "difference (stringifyArrayElements xs) (stringifyArrayElements ys) =
     stringifyArrayElements (filter (\<lambda>r. r \<notin> set ys) xs)"
  by (simp add: difference_def filter_stringify stringify_mem)

lemma Promise_all_map:
  "Promise_all (map f qs) =
     (if \<exists>q\<in>set qs. isl (f q) then Inl (projl (f (hd (filter (\<lambda>q. isl (f q)) qs))))
      else Inr (map (\<lambda>q. projr (f q)) qs))"
proof (induction qs)
  case Nil
  show ?case by simp
next
  case (Cons q qs)
  show ?case
  proof (cases "f q")
    case (Inl e)
    then show ?thesis by simp
  next
    case (Inr x)
    with Cons show ?thesis by simp
  qed
qed

text \<open>What the callback of select resolves with, batch by batch.\<close>

lemma mergeResults_outcome:
  "mergeResults subtractiveQueries (map f subtractiveQueries) additiveResult =
     (if subtractiveQueries = [] \<and> length additiveResult \<le> 1 then
        Resolved (case additiveResult of [] \<Rightarrow> ResultUndefined | batch # _ \<Rightarrow> Rows batch)
      else if additiveResult = [] then Pending
      else if subtractiveQueries = [] then Resolved (Rows (intersection additiveResult))
      else if \<exists>q\<in>set subtractiveQueries. isl (f q) then Pending
      else Resolved (Rows (filter
             (\<lambda>r. r \<notin> set (intersection (map (\<lambda>q. projr (f q)) subtractiveQueries)))
             (intersection additiveResult))))"
proof (cases "subtractiveQueries = [] \<and> length additiveResult \<le> 1")
  case True
  then show ?thesis by (simp add: mergeResults_def)
next
  case direct: False
  show ?thesis
  proof (cases "additiveResult = []")
    case True
    with direct show ?thesis
      by (auto simp: mergeResults_def intersectAndStringifyArrayOfArrays_def)
  next
    case ne: False
    show ?thesis
    proof (cases "subtractiveQueries = []")
      case True
      with direct ne show ?thesis
        by (simp add: mergeResults_def intersectAndStringify_rows parseArrayElements_stringify)
    next
      case sub: False
      show ?thesis
      proof (cases "\<exists>q\<in>set subtractiveQueries. isl (f q)")
        case True
        with direct ne sub show ?thesis
          by (simp add: mergeResults_def intersectAndStringify_rows Promise_all_map)
      next
        case False
        with direct ne sub show ?thesis
          by (simp add: mergeResults_def intersectAndStringify_rows Promise_all_map
                parseArrayElements_stringify difference_stringify)
      qed
    qed
  qed
qed

lemma Promise_all_fulfilled: "Promise_all (map Inr xs) = Inr xs"
  by (induction xs) simp_all

lemma filter_kept:
  assumes "inclusion \<noteq> []"
  shows "filter (kept inclusion exclusion) (last inclusion) =
           (if exclusion = [] then intersection inclusion
            else filter (\<lambda>r. r \<notin> set (intersection exclusion)) (intersection inclusion))"
proof (cases "exclusion = []")
  case True
  then show ?thesis
    by (simp add: kept_def [abs_def] intersection_def)
next
  case False
  have "filter (\<lambda>r. r \<notin> set (intersection exclusion)) (intersection inclusion) =
          filter (\<lambda>r. (\<forall>b\<in>set inclusion. r \<in> set b) \<and> \<not> (\<forall>b\<in>set exclusion. r \<in> set b))
            (last inclusion)"
    unfolding intersection_def [of inclusion] filter_filter set_intersection [OF False]
    by (intro filter_cong) auto
  then show ?thesis
    using False by (simp add: kept_def [abs_def])
qed


section \<open>select, step by step\<close>

lemma transaction_again:
  "fst (transaction (snd (transaction w table m)) table m') = fst (transaction w table m')"
  by (simp add: transaction_def Let_def split: option.splits)

lemma transaction_ready:
  "ready w table store \<Longrightarrow> fst (transaction w table m) = Inr store"
  by (auto simp: ready_def transaction_def Let_def split: option.splits)

lemma getPromises_fst:
  "fst (getPromisesFromQueryArray w table qs) =
     (case fst (transaction w table Readonly) of
        Inl e \<Rightarrow> Inl e
      | Inr store \<Rightarrow> Inr (map (scan store) qs))"
  by (simp add: getPromisesFromQueryArray_def split: prod.splits sum.splits)

lemma getPromises_snd:
  "snd (getPromisesFromQueryArray w table qs) = snd (transaction w table Readonly)"
  by (simp add: getPromisesFromQueryArray_def split: prod.splits sum.splits)

lemma select_outcome:
  "fst (select w table query) =
     (if LocalDatabase_instance w = None then Throws NotInitialised
      else if table = [] then Throws NoTableDefined
      else case LocalDatabase_schema w of
        None \<Rightarrow> Throws TypeError
      | Some schema \<Rightarrow>
          if table \<notin> set (tableNames schema) then Throws MissingTable
          else selectOutcome w table query)"
proof -
  have body:
    "fst (case destructureQuery ([], []) query of
            Inl e \<Rightarrow> (Rejected e, w)
          | Inr (additiveQueries, subtractiveQueries) \<Rightarrow>
              (case getPromisesFromQueryArray w table additiveQueries of
                 (Inl e, w1) \<Rightarrow> (Rejected e, w1)
               | (Inr additivePromises, w1) \<Rightarrow>
                   (case getPromisesFromQueryArray w1 table subtractiveQueries of
                      (Inl e, w2) \<Rightarrow> (Rejected e, w2)
                    | (Inr subtractivePromises, w2) \<Rightarrow>
                        (case Promise_all additivePromises of
                           Inl e \<Rightarrow> (Pending, w2)
                         | Inr additiveResult \<Rightarrow>
                             (mergeResults subtractiveQueries subtractivePromises
                                additiveResult, w2))))) = selectOutcome w table query"
  proof (cases "destructureQuery ([], []) query")
    case (Inl e)
    then show ?thesis by (simp add: selectOutcome_def)
  next
    case (Inr queries)
    obtain a s where q: "queries = (a, s)" by (cases queries)
    obtain p1 w1 where g1: "getPromisesFromQueryArray w table a = (p1, w1)"
      by (cases "getPromisesFromQueryArray w table a")
    have f1: "p1 = (case fst (transaction w table Readonly) of
                      Inl e \<Rightarrow> Inl e | Inr store \<Rightarrow> Inr (map (scan store) a))"
      using getPromises_fst [of w table a] g1 by simp
    have w1: "w1 = snd (transaction w table Readonly)"
      using getPromises_snd [of w table a] g1 by simp
    obtain p2 w2 where g2: "getPromisesFromQueryArray w1 table s = (p2, w2)"
      by (cases "getPromisesFromQueryArray w1 table s")
    have f2: "p2 = (case fst (transaction w table Readonly) of
                      Inl e \<Rightarrow> Inl e | Inr store \<Rightarrow> Inr (map (scan store) s))"
      using getPromises_fst [of w1 table s] g2 w1 by (simp add: transaction_again)
    show ?thesis
      using Inr q g1 g2 f1 f2
      by (auto simp: selectOutcome_def split: sum.splits)
  qed
  show ?thesis
    using body by (simp add: select_def split: option.splits)
qed

lemma select_ready:
  assumes "ready w table store"
  shows "fst (select w table query) =
           (case destructureQuery ([], []) query of
              Inl e \<Rightarrow> Rejected e
            | Inr (additiveQueries, subtractiveQueries) \<Rightarrow>
                (case Promise_all (map (scan store) additiveQueries) of
                   Inl e \<Rightarrow> Pending
                 | Inr additiveResult \<Rightarrow>
                     mergeResults subtractiveQueries (map (scan store) subtractiveQueries)
                       additiveResult))"
proof -
  have "LocalDatabase_instance w \<noteq> None" "table \<noteq> []"
    "\<exists>schema. LocalDatabase_schema w = Some schema \<and> table \<in> set (tableNames schema)"
    using assms by (auto simp: ready_def split: option.splits)
  then show ?thesis
    using transaction_ready [OF assms, of Readonly]
    by (auto simp: select_outcome selectOutcome_def split: sum.splits)
qed

section \<open>Scans, and the example world\<close>

lemma people_ready: "ready (peopleWorld rows cs) ''People'' (peopleStore rows)"
  by (simp add: ready_def peopleWorld_def dbSchema_def new_DatabaseSchema_def peopleTable_def
        objectStore_def peopleStore_def)

lemma people_stored: "storedRows (peopleWorld rows cs) ''People'' = rows"
  by (simp add: storedRows_def peopleWorld_def objectStore_def peopleStore_def)

lemma keyOf_eq: "validKey v \<Longrightarrow> keyOf keyPath r = Some v \<longleftrightarrow> map_of r keyPath = Some v"
  by (cases "map_of r keyPath") (auto simp: keyOf_def)

lemma scan_key:
  assumes "indexedColumn store columnName" and "validKey v"
  shows "scan store (columnName, Key v) =
           Inr (filter (\<lambda>r. map_of r columnName = Some v) (records store))"
proof -
  obtain index where i: "store_index store columnName = Some index"
      "index_keyPath index = columnName"
    using assms(1) by (auto simp: indexedColumn_def split: option.splits)
  have "v \<noteq> JNull"
    using assms(2) by (auto simp: validKey_def)
  then show ?thesis
    using i assms(2) by (simp add: scan_def getIndex_def IDBIndex_getAll_def keyOf_eq)
qed

lemma scan_range:
  assumes "indexedColumn store columnName"
  shows "scan store (columnName, KeyRange keyRange) =
           Inr (filter (\<lambda>r. case keyOf columnName r of
                              None \<Rightarrow> False
                            | Some k \<Rightarrow> IDBKeyRange_includes keyRange k) (records store))"
proof -
  obtain index where i: "store_index store columnName = Some index"
      "index_keyPath index = columnName"
    using assms(1) by (auto simp: indexedColumn_def split: option.splits)
  then show ?thesis
    by (simp add: scan_def getIndex_def IDBIndex_getAll_def)
qed

lemma scan_rows: "scan store q = Inr batch \<Longrightarrow> set batch \<subseteq> set (records store)"
  by (cases q; cases "snd q")
     (auto simp: scan_def getIndex_def IDBIndex_getAll_def split: option.splits if_splits)

lemma people_indexed:
  "indexedColumn (peopleStore rows) ''firstName''"
  "indexedColumn (peopleStore rows) ''lastName''"
  "indexedColumn (peopleStore rows) ''age''"
  by (simp_all add: indexedColumn_def store_index_def peopleStore_def)

lemma people_records: "records (peopleStore rows) = rows"
  by (simp add: peopleStore_def)

lemma ready_stored: "ready w table store \<Longrightarrow> storedRows w table = records store"
  by (auto simp: ready_def storedRows_def split: option.splits)

lemma isPrimitive_Value: "isPrimitive (Value v) \<or> Value v = Value JNull"
  by (cases v) (simp_all add: isPrimitive_def)

lemma destructureEntry_Value:
  "destructureEntry (a, s) (columnName, Value v) = Inr (a @ [(columnName, Key v)], s)"
  using isPrimitive_Value [of v] by (simp add: destructureEntry_def)

lemma destructureQuery_equality:
  "equalityQuery q \<Longrightarrow> destructureQuery (a, s) q = Inr (a @ map equalityClause q, s)"
proof (induction q arbitrary: a)
  case Nil
  show ?case by simp
next
  case (Cons entry q)
  obtain columnName v where e: "entry = (columnName, Value v)"
    using Cons.prems by (cases entry; cases "snd entry") (auto simp: equalityQuery_def)
  have "equalityQuery q"
    using Cons.prems by (simp add: equalityQuery_def)
  then show ?case
    using Cons.IH [of "a @ [(columnName, Key v)]"] e by (simp add: destructureEntry_Value)
qed

lemma scan_equalityClause:
  assumes "indexedColumn store (fst entry)" and "equalityQuery [entry]"
  shows "scan store (equalityClause entry) = Inr (filter (\<lambda>r. matches r entry) (records store))"
proof -
  obtain columnName v where e: "entry = (columnName, Value v)" and v: "validKey v"
    using assms(2) by (cases entry; cases "snd entry") (auto simp: equalityQuery_def)
  show ?thesis
    using assms(1) v by (simp add: e scan_key matches_def)
qed

lemma Promise_all_scans:
  assumes "Promise_all (map (scan store) qs) = Inr batches"
  shows "\<forall>b\<in>set batches. set b \<subseteq> set (records store)"
proof -
  have ok: "\<not> (\<exists>q\<in>set qs. isl (scan store q))"
    using assms by (auto simp: Promise_all_map split: if_splits)
  then have "batches = map (\<lambda>q. projr (scan store q)) qs"
    using assms by (simp add: Promise_all_map)
  moreover have "set (projr (scan store q)) \<subseteq> set (records store)" if "q \<in> set qs" for q
    using ok that scan_rows [of store q "projr (scan store q)"]
    by (cases "scan store q") auto
  ultimately show ?thesis by auto
qed

section \<open>Upgrading, and reaching the example world\<close>

lemma createIndexes_keeps:
  "createIndexes tableStore columns = Inr tableStore' \<Longrightarrow>
     store_name tableStore' = store_name tableStore \<and> records tableStore' = records tableStore"
proof (induction columns arbitrary: tableStore)
  case Nil
  then show ?case by simp
next
  case (Cons column columns)
  then show ?case
    by (auto simp: createIndex_def split: sum.splits if_splits)
qed

lemma upgradeTables_stores:
  "upgradeTables db tbls = Inr db' \<Longrightarrow>
     \<exists>new. objectStores db' = objectStores db @ new \<and>
           map store_name new = map table_name tbls \<and>
           (\<forall>s\<in>set new. records s = [])"
proof (induction tbls arbitrary: db)
  case Nil
  then show ?case by simp
next
  case (Cons t tbls)
  from Cons.prems obtain tableStore tableStore' where
    c: "createObjectStore db (table_name t) (column_name (keyColumn t)) (autoIncrement t) =
          Inr tableStore"
    and i: "createIndexes tableStore (otherColumns t) = Inr tableStore'"
    and u: "upgradeTables (db\<lparr>objectStores := objectStores db @ [tableStore']\<rparr>) tbls = Inr db'"
    by (auto split: sum.splits)
  have ts: "store_name tableStore = table_name t" "records tableStore = []"
    using c by (auto simp: createObjectStore_def split: if_splits)
  have ts': "store_name tableStore' = table_name t" "records tableStore' = []"
    using createIndexes_keeps [OF i] ts by simp_all
  from Cons.IH [OF u] obtain new where
    n: "objectStores db' = (objectStores db @ [tableStore']) @ new"
       "map store_name new = map table_name tbls" "\<forall>s\<in>set new. records s = []"
    by auto
  show ?case
    using n ts' by (intro exI [of _ "tableStore' # new"]) simp
qed

lemma find_store_name:
  "name \<in> set (map store_name stores) \<Longrightarrow>
     \<exists>store. find (\<lambda>s. store_name s = name) stores = Some store \<and> store \<in> set stores"
  by (induction stores) auto

lemma find_in_set: "find P xs = Some x \<Longrightarrow> x \<in> set xs"
  by (induction xs) (auto split: if_splits)

text \<open>
  A table has a name, and \<open>init\<close> completes for every schema whose tables have different
  names and whose columns, table by table, have different names.
\<close>

lemma new_TableSchema_name:
  "new_TableSchema name keyCol others autoInc = Inr t \<Longrightarrow> table_name t = name \<and> name \<noteq> []"
  by (auto simp: new_TableSchema_def split: if_splits option.splits)

lemma find_snoc:
  "find P (xs @ [x]) = (case find P xs of None \<Rightarrow> (if P x then Some x else None) | Some y \<Rightarrow> Some y)"
  by (induction xs) simp_all

lemma store_index_createIndex:
  "createIndex tableStore name keyPath opts = Inr tableStore' \<Longrightarrow> name' \<noteq> name \<Longrightarrow>
     store_index tableStore' name' = store_index tableStore name'"
  by (auto simp: createIndex_def store_index_def find_snoc split: if_splits option.splits)

lemma createIndexes_succeeds:
  "distinct (map column_name columns) \<Longrightarrow>
   \<forall>c\<in>set columns. store_index tableStore (column_name c) = None \<Longrightarrow>
     \<exists>tableStore'. createIndexes tableStore columns = Inr tableStore'"
proof (induction columns arbitrary: tableStore)
  case Nil
  show ?case by simp
next
  case (Cons column columns)
  obtain indexed where n: "createIndex tableStore (column_name column) (column_name column)
                           (options column) = Inr indexed"
    using Cons.prems(2) by (simp add: createIndex_def)
  have "store_index indexed (column_name c) = None" if "c \<in> set columns" for c
  proof -
    have "column_name c \<noteq> column_name column"
      using that Cons.prems(1) by (metis distinct.simps(2) image_eqI list.simps(9) list.set_map)
    then show ?thesis
      using store_index_createIndex [OF n] Cons.prems(2) that by simp
  qed
  then have "\<forall>c\<in>set columns. store_index indexed (column_name c) = None"
    by blast
  moreover have "distinct (map column_name columns)"
    using Cons.prems(1) by simp
  ultimately show ?case
    using Cons.IH [of indexed] n by simp
qed

lemma upgradeTables_succeeds:
  "distinct (map table_name tbls) \<Longrightarrow>
   \<forall>t\<in>set tbls. objectStore db (table_name t) = None \<Longrightarrow>
   \<forall>t\<in>set tbls. distinct (map column_name (otherColumns t)) \<Longrightarrow>
     \<exists>db'. upgradeTables db tbls = Inr db'"
proof (induction tbls arbitrary: db)
  case Nil
  show ?case by simp
next
  case (Cons t tbls)
  obtain tableStore where c:
    "createObjectStore db (table_name t) (column_name (keyColumn t)) (autoIncrement t) =
       Inr tableStore"
    using Cons.prems(2) by (simp add: createObjectStore_def)
  have fresh: "store_index tableStore name = None" for name
    using c by (auto simp: createObjectStore_def store_index_def split: if_splits)
  obtain tableStore' where i: "createIndexes tableStore (otherColumns t) = Inr tableStore'"
    using createIndexes_succeeds [of "otherColumns t" tableStore] Cons.prems(3) fresh by auto
  have nm: "store_name tableStore' = table_name t"
    using createIndexes_keeps [OF i] c by (auto simp: createObjectStore_def split: if_splits)
  let ?db = "db\<lparr>objectStores := objectStores db @ [tableStore']\<rparr>"
  have "\<forall>u\<in>set tbls. objectStore ?db (table_name u) = None"
    using Cons.prems(1,2) nm by (auto simp: objectStore_def find_snoc split: option.splits)
  then obtain db' where "upgradeTables ?db tbls = Inr db'"
    using Cons.IH [of ?db] Cons.prems(1,3) by auto
  then show ?case
    using c i by simp
qed

lemma init_resolves:
  assumes "window_indexedDB w \<noteq> None"
    and "distinct (map table_name tbls)"
    and "\<forall>t\<in>set tbls. distinct (map column_name (otherColumns t))"
  shows "\<exists>w'. init w (new_DatabaseSchema name tbls) = (Resolved (), w')"
proof -
  obtain factory where f: "window_indexedDB w = Some factory"
    using assms(1) by auto
  obtain db' where "upgradeTables \<lparr>database_version = 0, objectStores = []\<rparr> tbls = Inr db'"
    using upgradeTables_succeeds [OF assms(2) _ assms(3),
        of "\<lparr>database_version = 0, objectStores = []\<rparr>"]
    by (auto simp: objectStore_def)
  then show ?thesis
    using f
    by (simp add: init_def Let_def upgrade_def new_DatabaseSchema_def IDBFactory_open_def
          IDBFactory_deleteDatabase_def)
qed

text \<open>
  Running the example page: \<open>init\<close> in a browser without databases creates the empty
  table, each \<open>add\<close> appends a person, and the page ends in the world in which People
  holds the four people.
\<close>

lemma init_people:
  "init (peopleWorld rows cs) dbSchema =
     (Resolved (), peopleWorld [] (cs @ [DeleteDatabase ''MyDatabase'', Open ''MyDatabase'' 1]))"
  by (simp add: init_def Let_def peopleWorld_def dbSchema_def new_DatabaseSchema_def
        peopleTable_def new_ColumnSchema_def default_options_def IDBFactory_deleteDatabase_def
        IDBFactory_open_def LocalDatabase_version_def upgrade_def createObjectStore_def
        createIndex_def objectStore_def store_index_def peopleStore_def)

lemma init_browser:
  "init browser dbSchema =
     (Resolved (), peopleWorld [] [DeleteDatabase ''MyDatabase'', Open ''MyDatabase'' 1])"
  by (simp add: init_def Let_def browser_def peopleWorld_def dbSchema_def
        new_DatabaseSchema_def peopleTable_def new_ColumnSchema_def default_options_def
        IDBFactory_deleteDatabase_def IDBFactory_open_def LocalDatabase_version_def upgrade_def
        createObjectStore_def createIndex_def objectStore_def store_index_def peopleStore_def)

lemma add_person:
  assumes "map_of object ''id'' = Some key" and "validKey key"
  shows "add (peopleWorld rows cs) ''People'' object \<lparr>upsert = True\<rparr> =
           (Resolved (),
            peopleWorld (filter (\<lambda>r. keyOf ''id'' r \<noteq> Some key) rows @ [object])
              (cs @ [Transaction ''People'' Readwrite]))"
proof -
  have t: "transaction (peopleWorld rows cs) ''People'' Readwrite =
             (Inr (peopleStore rows), peopleWorld rows (cs @ [Transaction ''People'' Readwrite]))"
    by (simp add: transaction_def Let_def peopleWorld_def objectStore_def peopleStore_def)
  have p: "IDBObjectStore_put (peopleStore rows) object =
             Inr (peopleStore (filter (\<lambda>r. keyOf ''id'' r \<noteq> Some key) rows @ [object]))"
    using assms
    by (cases key)
       (simp_all add: IDBObjectStore_put_def storeRecord_def peopleStore_def violatesUnique_def
          validKey_def)
  have c: "commit (peopleWorld rows cs') (peopleStore rows') = peopleWorld rows' cs'" for rows' cs'
    by (simp add: commit_def peopleWorld_def replaceStore_def peopleStore_def)
  have n: "''People'' \<in> set (tableNames dbSchema)"
    by (simp add: dbSchema_def new_DatabaseSchema_def peopleTable_def)
  have s: "LocalDatabase_instance (peopleWorld rows cs) = Some ''MyDatabase''"
    "LocalDatabase_schema (peopleWorld rows cs) = Some dbSchema"
    by (simp_all add: peopleWorld_def)
  show ?thesis
    using n by (simp add: add_def s t p c)
qed


lemma examplePage_world:
  "examplePage =
     peopleWorld people
       [DeleteDatabase ''MyDatabase'', Open ''MyDatabase'' 1,
        Transaction ''People'' Readwrite, Transaction ''People'' Readwrite,
        Transaction ''People'' Readwrite, Transaction ''People'' Readwrite]"
proof -
  have a: "snd (add (peopleWorld rows cs) ''People'' (person i f l a) \<lparr>upsert = True\<rparr>) =
             peopleWorld (filter (\<lambda>r. keyOf ''id'' r \<noteq> Some (JNum i)) rows @ [person i f l a])
               (cs @ [Transaction ''People'' Readwrite])" for rows cs i f l a
    by (subst add_person [of _ "JNum i"]) (simp_all add: person_def validKey_def)
  have k: "keyOf ''id'' (person i f l a) = Some (JNum i)" for i f l a
    by (simp add: keyOf_def person_def validKey_def)
  show ?thesis
    by (simp add: examplePage_def init_browser people_def a k)
qed

lemma page_ready: "ready examplePage ''People'' (peopleStore people)"
  unfolding examplePage_world by (rule people_ready)

lemma page_stored: "storedRows examplePage ''People'' = people"
  unfolding examplePage_world by (rule people_stored)

lemma page_initialised:
  "LocalDatabase_instance examplePage \<noteq> None"
  "LocalDatabase_schema examplePage = Some dbSchema"
  unfolding examplePage_world by (simp_all add: peopleWorld_def)

lemma init_page:
  "init examplePage dbSchema =
     (Resolved (),
      peopleWorld []
        [DeleteDatabase ''MyDatabase'', Open ''MyDatabase'' 1,
         Transaction ''People'' Readwrite, Transaction ''People'' Readwrite,
         Transaction ''People'' Readwrite, Transaction ''People'' Readwrite,
         DeleteDatabase ''MyDatabase'', Open ''MyDatabase'' 1])"
  unfolding examplePage_world by (simp add: init_people)


section \<open>Clauses and batches in another order\<close>

lemma destructureEntry_acc:
  "destructureEntry (a, s) entry =
     (case destructureEntry ([], []) entry of
        Inl e \<Rightarrow> Inl e
      | Inr (pa, ps) \<Rightarrow> Inr (a @ pa, s @ ps))"
  by (cases entry) (auto simp: destructureEntry_def split: column_entry.splits sum.splits)

lemma destructureQuery_fails:
  "\<exists>entry\<in>set q. isl (destructureEntry ([], []) entry) \<Longrightarrow>
     isl (destructureQuery (a, s) q)"
proof (induction q arbitrary: a s)
  case Nil
  then show ?case by simp
next
  case (Cons entry q)
  show ?case
  proof (cases "destructureEntry ([], []) entry")
    case (Inl e)
    then show ?thesis
      by (simp add: destructureEntry_acc [of a s])
  next
    case (Inr pushed)
    obtain pa ps where p: "pushed = (pa, ps)" by (cases pushed)
    have "\<exists>entry\<in>set q. isl (destructureEntry ([], []) entry)"
      using Cons.prems Inr by auto
    from Cons.IH [OF this, of "a @ pa" "s @ ps"] show ?thesis
      using Inr p by (simp add: destructureEntry_acc [of a s])
  qed
qed

lemma destructureQuery_ok:
  "\<forall>entry\<in>set q. \<not> isl (destructureEntry ([], []) entry) \<Longrightarrow>
     destructureQuery (a, s) q =
       Inr (a @ concat (map (\<lambda>entry. fst (projr (destructureEntry ([], []) entry))) q),
            s @ concat (map (\<lambda>entry. snd (projr (destructureEntry ([], []) entry))) q))"
proof (induction q arbitrary: a s)
  case Nil
  then show ?case by simp
next
  case (Cons entry q)
  then obtain pa ps where p: "destructureEntry ([], []) entry = Inr (pa, ps)"
    by (cases "destructureEntry ([], []) entry") auto
  have "\<forall>entry\<in>set q. \<not> isl (destructureEntry ([], []) entry)"
    using Cons.prems by simp
  from Cons.IH [OF this, of "a @ pa" "s @ ps"] show ?case
    using p by (simp add: destructureEntry_acc [of a s])
qed

lemma mset_concat_map:
  assumes "mset q' = mset q"
  shows "mset (concat (map f q')) = mset (concat (map f q))"
proof -
  have "mset (concat (map f xs)) = (\<Sum>x\<in>#mset xs. mset (f x))" for xs
    by (induction xs) simp_all
  then show ?thesis
    using assms by simp
qed

lemma mset_short:
  assumes "mset a' = mset a" and "length a \<le> 1"
  shows "a' = a"
proof (cases a)
  case Nil
  then show ?thesis using assms(1) by simp
next
  case (Cons x xs)
  then have "a = [x]" using assms(2) by simp
  then show ?thesis using assms(1) by (cases a') (auto simp: single_is_union)
qed

lemma sameRows_refl: "sameRows x x"
proof (cases x)
  case (Resolved v)
  then show ?thesis by (cases v) simp_all
qed simp_all

lemma mergeResults_order:
  assumes "set s' = set s" and "s' = [] \<longleftrightarrow> s = []"
    and "set batches' = set batches" and "length batches' = length batches"
    and "length batches \<le> 1 \<longrightarrow> batches' = batches"
  shows "sameRows (mergeResults s (map f s) batches) (mergeResults s' (map f s') batches')"
proof -
  have emp: "batches' = [] \<longleftrightarrow> batches = []"
    using assms(4) by auto
  have ib: "batches \<noteq> [] \<Longrightarrow> set (intersection batches') = set (intersection batches)"
    using emp assms(3) by (simp add: set_intersection)
  have isub: "s \<noteq> [] \<Longrightarrow>
                set (intersection (map (\<lambda>q. projr (f q)) s')) =
                set (intersection (map (\<lambda>q. projr (f q)) s))"
    using assms(1,2) by (simp add: set_intersection)
  show ?thesis
    unfolding mergeResults_outcome
    using assms emp ib isub
    by (cases "batches = []"; cases "s = []"; cases "length batches \<le> 1")
       (simp_all add: sameRows_refl)
qed

lemma merge_order:
  assumes "mset a' = mset a" and "mset s' = mset s"
  shows "sameRows
           (case Promise_all (map (scan store) a) of
              Inl e \<Rightarrow> Pending
            | Inr additiveResult \<Rightarrow> mergeResults s (map (scan store) s) additiveResult)
           (case Promise_all (map (scan store) a') of
              Inl e \<Rightarrow> Pending
            | Inr additiveResult \<Rightarrow> mergeResults s' (map (scan store) s') additiveResult)"
proof -
  let ?rows = "\<lambda>q. projr (scan store q)"
  have seta: "set a' = set a" and lena: "length a' = length a"
    using assms(1) by (auto dest: mset_eq_setD mset_eq_length)
  have sets: "set s' = set s" and lens: "length s' = length s"
    using assms(2) by (auto dest: mset_eq_setD mset_eq_length)
  have emps: "s' = [] \<longleftrightarrow> s = []"
    using lens by auto
  show ?thesis
  proof (cases "\<exists>q\<in>set a. isl (scan store q)")
    case True
    then show ?thesis
      using seta by (simp add: Promise_all_map)
  next
    case scans: False
    have pa: "Promise_all (map (scan store) a) = Inr (map ?rows a)"
      "Promise_all (map (scan store) a') = Inr (map ?rows a')"
      using scans seta by (simp_all add: Promise_all_map)
    have short: "length (map ?rows a) \<le> 1 \<longrightarrow> map ?rows a' = map ?rows a"
      using mset_short [OF assms(1)] by simp
    show ?thesis
      unfolding pa sum.case
      by (rule mergeResults_order [OF sets emps _ _ short]) (simp_all add: seta lena)
  qed
qed

lemma sameRows_Rows:
  "sameRows (Resolved (Rows xs)) y \<Longrightarrow> \<exists>ys. y = Resolved (Rows ys) \<and> set ys = set xs"
proof (cases y)
  case (Resolved v)
  assume "sameRows (Resolved (Rows xs)) y"
  then show ?thesis using Resolved by (cases v) auto
qed simp_all

lemma documentation_query:
  "fst (select examplePage ''People''
          [(''firstName'', Value (JStr ''John'')), (''age'', Value (JNum 69)),
           (''lastName'', Operators \<lparr>gt = None, gte = None, lt = None, lte = None,
                                       ne = Some (JStr ''Gilmore'')\<rparr>)]) =
     Resolved (Rows [person 5 ''John'' ''Robson'' 69])"
proof -
  let ?query = "[(''firstName'', Value (JStr ''John'')), (''age'', Value (JNum 69)),
      (''lastName'', Operators \<lparr>gt = None, gte = None, lt = None, lte = None,
                                  ne = Some (JStr ''Gilmore'')\<rparr>)]"
  let ?adds = "[(''firstName'', Key (JStr ''John'')), (''age'', Key (JNum 69))]"
  let ?subs = "[(''lastName'', Key (JStr ''Gilmore''))]"
  let ?batches = "[[person 1 ''John'' ''Doe'' 42, person 6 ''John'' ''Gilmore'' 69,
           person 5 ''John'' ''Robson'' 69],
          [person 6 ''John'' ''Gilmore'' 69, person 5 ''John'' ''Robson'' 69]]"
  have d: "destructureQuery ([], []) ?query = Inr (?adds, ?subs)"
    by (simp add: destructureEntry_Value)
       (simp add: destructureEntry_def isPrimitive_def rangeQueries_def
          effectiveGreaterThan_def effectiveLessThan_def)
  have p: "Promise_all (map (scan (peopleStore people)) ?adds) = Inr ?batches"
    by (simp add: scan_key people_indexed people_records validKey_def people_def person_def)
  have x: "scan (peopleStore people) (''lastName'', Key (JStr ''Gilmore'')) =
             Inr [person 6 ''John'' ''Gilmore'' 69, person 3 ''Harry'' ''Gilmore'' 30]"
    by (simp add: scan_key people_indexed people_records validKey_def people_def person_def)
  have m: "mergeResults ?subs (map (scan (peopleStore people)) ?subs) ?batches =
             Resolved (Rows [person 5 ''John'' ''Robson'' 69])"
    unfolding mergeResults_outcome by (simp add: x intersection_def person_def)
  show ?thesis
    unfolding select_ready [OF page_ready] d prod.case sum.case p m ..
qed

section \<open>Exclusion clauses on the example table\<close>

lemma scan_exclusionClause:
  assumes "exclusionClause store q"
  shows "scan store q = Inr (filter (\<lambda>r. excludedBy r q) (records store))"
proof -
  obtain columnName v where q: "q = (columnName, Key v)" and v: "validKey v"
    and i: "indexedColumn store columnName"
    using assms by (cases q; cases "snd q") (auto simp: exclusionClause_def)
  show ?thesis
    using scan_key [OF i v] by (simp add: q excludedBy_def)
qed

lemma add_anonymous:
  "snd (add examplePage ''People'' anonymous \<lparr>upsert = True\<rparr>) =
     peopleWorld (people @ [anonymous])
       [DeleteDatabase ''MyDatabase'', Open ''MyDatabase'' 1,
        Transaction ''People'' Readwrite, Transaction ''People'' Readwrite,
        Transaction ''People'' Readwrite, Transaction ''People'' Readwrite,
        Transaction ''People'' Readwrite]"
proof -
  have k: "map_of anonymous ''id'' = Some (JNum 7)" "validKey (JNum 7)"
    by (simp_all add: anonymous_def validKey_def)
  have f: "filter (\<lambda>r. keyOf ''id'' r \<noteq> Some (JNum 7)) people = people"
    by (simp add: people_def person_def keyOf_def validKey_def)
  show ?thesis
    unfolding examplePage_world add_person [OF k] f by simp
qed

lemma exclusion_clauses:
  "destructureQuery ([], [])
     [(''firstName'', Value (JStr ''John'')),
      (''lastName'', Operators \<lparr>gt = None, gte = None, lt = None, lte = None, ne = Some u\<rparr>),
      (''age'', Operators \<lparr>gt = None, gte = None, lt = None, lte = None, ne = Some v\<rparr>)] =
     Inr ([(''firstName'', Key (JStr ''John''))], [(''lastName'', Key u), (''age'', Key v)])"
  "destructureQuery ([], [])
     [(''firstName'', Value (JStr ''John'')),
      (''lastName'', Operators \<lparr>gt = None, gte = None, lt = None, lte = None, ne = Some u\<rparr>)] =
     Inr ([(''firstName'', Key (JStr ''John''))], [(''lastName'', Key u)])"
  by (simp_all add: destructureEntry_Value)
     (simp_all add: destructureEntry_def isPrimitive_def rangeQueries_def
        effectiveGreaterThan_def effectiveLessThan_def)

lemma johns:
  "Promise_all (map (scan (peopleStore people)) [(''firstName'', Key (JStr ''John''))]) =
     Inr [[person 1 ''John'' ''Doe'' 42, person 6 ''John'' ''Gilmore'' 69,
           person 5 ''John'' ''Robson'' 69]]"
  by (simp add: scan_key people_indexed people_records validKey_def people_def person_def)


section \<open>The result merger and duplicates\<close>

text \<open>
  Claim C5, as the code has it. The merger has no step that removes duplicates. For every
  non-empty list of inclusion batches and every list of exclusion batches (one per
  exclusion clause) it resolves with the last inclusion batch, filtered: a row is dropped
  when it is missing from some inclusion batch or, there being exclusion batches, occurs
  in every one of them. Every other row is returned as often as the last inclusion batch
  holds it, so duplicates in that batch are returned as they are, and the result holds no
  row twice whenever that batch holds none twice.
\<close>

theorem merge_filters_last_batch:
  assumes "additiveResult \<noteq> []"
    and "length subtractiveQueries = length subtractiveResult"
  shows "mergeResults subtractiveQueries (map Inr subtractiveResult) additiveResult =
           Resolved (Rows (filter (kept additiveResult subtractiveResult)
                             (last additiveResult))) \<and>
         (\<forall>r. count_list (filter (kept additiveResult subtractiveResult)
                             (last additiveResult)) r =
                (if kept additiveResult subtractiveResult r
                 then count_list (last additiveResult) r else 0)) \<and>
         (distinct (last additiveResult) \<longrightarrow>
            distinct (filter (kept additiveResult subtractiveResult) (last additiveResult)))"
proof -
  have merged: "mergeResults subtractiveQueries (map Inr subtractiveResult) additiveResult =
                  Resolved (Rows (filter (kept additiveResult subtractiveResult)
                                    (last additiveResult)))"
  proof (cases "subtractiveResult = []")
    case True
    then have sq: "subtractiveQueries = []"
      using assms(2) by simp
    show ?thesis
    proof (cases "length additiveResult \<le> 1")
      case True
      then obtain batch where b: "additiveResult = [batch]"
        using assms(1) by (cases additiveResult) auto
      have "filter (\<lambda>r. r \<in> set batch) batch = batch"
        by (simp cong: filter_cong)
      then show ?thesis
        using sq \<open>subtractiveResult = []\<close>
        by (simp add: b mergeResults_def kept_def [abs_def])
    next
      case False
      then show ?thesis
        using sq \<open>subtractiveResult = []\<close> assms(1)
        by (simp add: mergeResults_def intersectAndStringify_rows
              parseArrayElements_stringify filter_kept)
    qed
  next
    case False
    then have "subtractiveQueries \<noteq> []"
      using assms(2) by auto
    then show ?thesis
      using False assms(1)
      by (simp add: mergeResults_def intersectAndStringify_rows Promise_all_fulfilled
            difference_stringify parseArrayElements_stringify filter_kept)
  qed
  have counts: "count_list (filter P xs) r = (if P r then count_list xs r else 0)"
    for P :: "row \<Rightarrow> bool" and xs r
    by (induction xs) auto
  show ?thesis
    using merged counts by simp
qed

text \<open>
  Two runs with the exclusion batch of the Gilmores. With inclusion batches without
  duplicates the result is the one row they share that is not excluded; with a last
  inclusion batch that holds this row twice the result holds it twice.
\<close>

theorem merge_filters_last_batch_witness:
  "[[person 1 ''John'' ''Doe'' 42, person 6 ''John'' ''Gilmore'' 69,
     person 5 ''John'' ''Robson'' 69],
    [person 6 ''John'' ''Gilmore'' 69, person 5 ''John'' ''Robson'' 69]] \<noteq> [] \<and>
   length [(''lastName'', Key (JStr ''Gilmore''))] =
     length [[person 6 ''John'' ''Gilmore'' 69, person 3 ''Harry'' ''Gilmore'' 30]] \<and>
   mergeResults [(''lastName'', Key (JStr ''Gilmore''))]
     (map Inr [[person 6 ''John'' ''Gilmore'' 69, person 3 ''Harry'' ''Gilmore'' 30]])
     [[person 1 ''John'' ''Doe'' 42, person 6 ''John'' ''Gilmore'' 69,
       person 5 ''John'' ''Robson'' 69],
      [person 6 ''John'' ''Gilmore'' 69, person 5 ''John'' ''Robson'' 69]] =
     Resolved (Rows [person 5 ''John'' ''Robson'' 69]) \<and>
   distinct (last [[person 1 ''John'' ''Doe'' 42, person 6 ''John'' ''Gilmore'' 69,
       person 5 ''John'' ''Robson'' 69],
      [person 6 ''John'' ''Gilmore'' 69, person 5 ''John'' ''Robson'' 69]]) \<and>
   distinct [person 5 ''John'' ''Robson'' 69] \<and>
   mergeResults [(''lastName'', Key (JStr ''Gilmore''))]
     (map Inr [[person 6 ''John'' ''Gilmore'' 69, person 3 ''Harry'' ''Gilmore'' 30]])
     [[person 6 ''John'' ''Gilmore'' 69, person 5 ''John'' ''Robson'' 69],
      [person 5 ''John'' ''Robson'' 69, person 6 ''John'' ''Gilmore'' 69,
       person 5 ''John'' ''Robson'' 69]] =
     Resolved (Rows [person 5 ''John'' ''Robson'' 69, person 5 ''John'' ''Robson'' 69])"
proof -
  let ?doe = "person 1 ''John'' ''Doe'' 42" and ?gilmore = "person 6 ''John'' ''Gilmore'' 69"
    and ?robson = "person 5 ''John'' ''Robson'' 69" and ?harry = "person 3 ''Harry'' ''Gilmore'' 30"
  let ?sq = "[(''lastName'', Key (JStr ''Gilmore''))]"
  let ?sr = "[[?gilmore, ?harry]]"
  let ?a = "[[?doe, ?gilmore, ?robson], [?gilmore, ?robson]]"
  let ?b = "[[?gilmore, ?robson], [?robson, ?gilmore, ?robson]]"
  have na: "?a \<noteq> []" and nb: "?b \<noteq> []" and len: "length ?sq = length ?sr"
    by simp_all
  have ka: "filter (kept ?a ?sr) (last ?a) = [?robson]"
    by (simp add: kept_def person_def)
  have kb: "filter (kept ?b ?sr) (last ?b) = [?robson, ?robson]"
    by (simp add: kept_def person_def)
  have da: "distinct (last ?a)"
    by (simp add: person_def)
  note ta = merge_filters_last_batch [OF na len, unfolded ka]
  note tb = merge_filters_last_batch [OF nb len, unfolded kb]
  have ra: "mergeResults ?sq (map Inr ?sr) ?a = Resolved (Rows [?robson])"
    using ta by blast
  have dr: "distinct [?robson]"
    using ta da by blast
  have rb: "mergeResults ?sq (map Inr ?sr) ?b = Resolved (Rows [?robson, ?robson])"
    using tb by blast
  show ?thesis
    using na len ra da dr rb by (intro conjI)
qed

text \<open>
  Claim C5 as stated fails: with the inclusion batches \<open>[r]\<close> and \<open>[r, r]\<close> the merger
  resolves with \<open>[r, r]\<close>, two rows of identical content. (The claim is about every
  combination of batches; in the engine a scan of a multi-entry index delivers a record
  once for each of its index keys inside the range.)
\<close>

theorem merge_keeps_duplicates:
  "mergeResults [] []
     [[person 1 ''John'' ''Doe'' 42],
      [person 1 ''John'' ''Doe'' 42, person 1 ''John'' ''Doe'' 42]]
     = Resolved (Rows [person 1 ''John'' ''Doe'' 42, person 1 ''John'' ''Doe'' 42]) \<and>
   \<not> distinct [person 1 ''John'' ''Doe'' 42, person 1 ''John'' ''Doe'' 42]"
  using mergeResults_outcome [of "[]" "\<lambda>q. Inr []"
      "[[person 1 ''John'' ''Doe'' 42],
        [person 1 ''John'' ''Doe'' 42, person 1 ''John'' ''Doe'' 42]]"]
  by (simp add: intersection_def)


section \<open>A single scan is returned as it is\<close>

text \<open>
  Claim C6. When a query yields no exclusion clause and at most one inclusion clause,
  select resolves with the batch of that one scan itself: nothing is intersected,
  stringified or parsed. If the scan fails (no such index, or a value that is no key) the
  promise stays unsettled. A query that yields no clause at all resolves with
  \<^verbatim>\<open>undefined\<close>, not with the rows of the table.
\<close>

theorem select_single_scan_direct:
  assumes "ready w table store"
    and "destructureQuery ([], []) query = Inr (additiveQueries, [])"
    and "length additiveQueries \<le> 1"
  shows "fst (select w table query) =
           (case additiveQueries of
              [] \<Rightarrow> Resolved ResultUndefined
            | q # others \<Rightarrow>
                (case scan store q of
                   Inl e \<Rightarrow> Pending
                 | Inr batch \<Rightarrow> Resolved (Rows batch)))"
proof (cases additiveQueries)
  case Nil
  then show ?thesis
    using assms(2) by (simp add: select_ready [OF assms(1)] mergeResults_def)
next
  case (Cons q others)
  then have "others = []"
    using assms(3) by simp
  then show ?thesis
    using Cons assms(2)
    by (cases "scan store q") (simp_all add: select_ready [OF assms(1)] mergeResults_def)
qed

text \<open>
  On the example table, which holds four people: the empty query resolves with
  \<^verbatim>\<open>undefined\<close>, and the query for age 69 with the two rows of that age.
\<close>

theorem select_single_scan_direct_witness:
  "ready examplePage ''People'' (peopleStore people) \<and>
   destructureQuery ([], []) [] = Inr ([], []) \<and>
   length ([] :: clause list) \<le> 1 \<and>
   storedRows examplePage ''People'' = people \<and>
   fst (select examplePage ''People'' []) = Resolved ResultUndefined \<and>
   destructureQuery ([], []) [(''age'', Value (JNum 69))] = Inr ([(''age'', Key (JNum 69))], []) \<and>
   length [(''age'', Key (JNum 69))] \<le> 1 \<and>
   fst (select examplePage ''People'' [(''age'', Value (JNum 69))]) =
     Resolved (Rows [person 6 ''John'' ''Gilmore'' 69, person 5 ''John'' ''Robson'' 69])"
proof -
  have d0: "destructureQuery ([], []) [] = Inr ([], [])"
    by simp
  have d1: "destructureQuery ([], []) [(''age'', Value (JNum 69))] =
              Inr ([(''age'', Key (JNum 69))], [])"
    by (simp add: destructureEntry_def isPrimitive_def)
  have s1: "scan (peopleStore people) (''age'', Key (JNum 69)) =
              Inr [person 6 ''John'' ''Gilmore'' 69, person 5 ''John'' ''Robson'' 69]"
    by (simp add: scan_key people_indexed people_records validKey_def people_def person_def)
  have l0: "length ([] :: clause list) \<le> 1" and l1: "length [(''age'', Key (JNum 69))] \<le> 1"
    by simp_all
  have c0: "fst (select examplePage ''People'' []) = Resolved ResultUndefined"
    using select_single_scan_direct [OF page_ready d0 l0]
    by simp
  have c1: "fst (select examplePage ''People'' [(''age'', Value (JNum 69))]) =
              Resolved (Rows [person 6 ''John'' ''Gilmore'' 69, person 5 ''John'' ''Robson'' 69])"
    using select_single_scan_direct [OF page_ready d1 l1]
    by (simp add: s1)
  show ?thesis
    using page_ready page_stored d0 d1 l0 l1 c0 c1
    by (intro conjI)
qed


section \<open>Exclusions without inclusions\<close>

text \<open>
  Claim C9. A query that yields exclusion clauses only never resolves: the list of
  inclusion batches is empty, \<open>intersectAndStringifyArrayOfArrays\<close> raises a TypeError
  on it inside the callback, and nothing settles the promise. So in every world select
  does not resolve, and in a world that is ready for the table the promise is pending.
\<close>

theorem select_only_exclusions_never_resolves:
  assumes "destructureQuery ([], []) query = Inr ([], subtractiveQueries)"
    and "subtractiveQueries \<noteq> []"
  shows "intersectAndStringifyArrayOfArrays [] = Inl TypeError \<and>
         (\<forall>v. fst (select w table query) \<noteq> Resolved v) \<and>
         (\<forall>store. ready w table store \<longrightarrow> fst (select w table query) = Pending)"
proof -
  have merge: "mergeResults subtractiveQueries promises [] = Pending" for promises
    using assms(2) by (simp add: mergeResults_def intersectAndStringifyArrayOfArrays_def)
  have "selectOutcome w table query \<noteq> Resolved v" for v
    using assms(1) by (simp add: selectOutcome_def merge split: sum.splits)
  then have never: "fst (select w table query) \<noteq> Resolved v" for v
    by (simp add: select_outcome split: option.splits)
  have "fst (select w table query) = Pending" if "ready w table store" for store
    using assms(1) by (simp add: select_ready [OF that] merge)
  then show ?thesis
    using never by (simp add: intersectAndStringifyArrayOfArrays_def)
qed

text \<open>The query for every last name other than Gilmore, on the example table.\<close>

theorem select_only_exclusions_never_resolves_witness:
  "destructureQuery ([], [])
     [(''lastName'', Operators \<lparr>gt = None, gte = None, lt = None, lte = None,
                                 ne = Some (JStr ''Gilmore'')\<rparr>)] =
     Inr ([], [(''lastName'', Key (JStr ''Gilmore''))]) \<and>
   [(''lastName'', Key (JStr ''Gilmore''))] \<noteq> [] \<and>
   ready examplePage ''People'' (peopleStore people) \<and>
   fst (select examplePage ''People''
          [(''lastName'', Operators \<lparr>gt = None, gte = None, lt = None, lte = None,
                                      ne = Some (JStr ''Gilmore'')\<rparr>)]) = Pending"
proof -
  let ?query = "[(''lastName'', Operators \<lparr>gt = None, gte = None, lt = None, lte = None,
                                            ne = Some (JStr ''Gilmore'')\<rparr>)]"
  have d: "destructureQuery ([], []) ?query = Inr ([], [(''lastName'', Key (JStr ''Gilmore''))])"
    by (simp add: destructureEntry_def isPrimitive_def rangeQueries_def
          effectiveGreaterThan_def effectiveLessThan_def)
  have n: "[(''lastName'', Key (JStr ''Gilmore''))] \<noteq> []"
    by simp
  have c: "fst (select examplePage ''People'' ?query) = Pending"
    using select_only_exclusions_never_resolves [OF d n, of examplePage "''People''"]
      page_ready
    by blast
  show ?thesis
    using d n page_ready c by (intro conjI)
qed


section \<open>Unknown tables\<close>

text \<open>
  Claim C7. Once LocalDatabase is initialised, select, add and delete called with a table
  name that the schema does not list throw at once, before any promise is made, and leave
  the world as it is: no engine call is logged and no database is changed. The exception
  is the one for a missing table; for the empty name, which no table can carry since
  \<open>new_TableSchema\<close> refuses it, the guard just before raises "No table defined".
\<close>

theorem unknown_table_throws_before_engine:
  assumes "LocalDatabase_instance w \<noteq> None"
    and "LocalDatabase_schema w = Some schema"
    and "table \<notin> set (tableNames schema)"
  shows "select w table query =
           (Throws (if table = [] then NoTableDefined else MissingTable), w) \<and>
         add w table object opts =
           (Throws (if table = [] then NoTableDefined else MissingTable), w) \<and>
         delete w table query =
           (Throws (if table = [] then NoTableDefined else MissingTable), w)"
  using assms by (simp add: select_def add_def delete_def)

text \<open>The example world and a table it does not have.\<close>

theorem unknown_table_throws_before_engine_witness:
  "LocalDatabase_instance examplePage \<noteq> None \<and>
   LocalDatabase_schema examplePage = Some dbSchema \<and>
   ''NoSuchTable'' \<notin> set (tableNames dbSchema) \<and>
   select examplePage ''NoSuchTable'' [] =
     (Throws MissingTable, examplePage) \<and>
   add examplePage ''NoSuchTable'' (person 2 ''Bob'' ''Smith'' 35)
       \<lparr>upsert = True\<rparr> =
     (Throws MissingTable, examplePage) \<and>
   delete examplePage ''NoSuchTable'' [] =
     (Throws MissingTable, examplePage)"
proof -
  note i = page_initialised(1) and s = page_initialised(2)
  have t: "''NoSuchTable'' \<notin> set (tableNames dbSchema)"
    by (simp add: dbSchema_def new_DatabaseSchema_def peopleTable_def)
  have ne: "''NoSuchTable'' \<noteq> []"
    by simp
  note c = unknown_table_throws_before_engine [OF i s t, of "[]" "person 2 ''Bob'' ''Smith'' 35"
      "\<lparr>upsert = True\<rparr>", unfolded if_not_P [OF ne]]
  show ?thesis
    using i s t c by (intro conjI) blast+
qed


section \<open>Equality queries\<close>

text \<open>
  Claim C1, as the code has it. For a query that is not empty, whose fields are indexed
  columns of the table and whose values are numbers or strings, select resolves with
  rows that are, as a set, exactly the stored rows whose properties equal all the given
  values.
\<close>

theorem select_equality_rows:
  assumes "ready w table store"
    and "query \<noteq> []"
    and "equalityQuery query"
    and "list_all (\<lambda>entry. indexedColumn store (fst entry)) query"
  shows "\<exists>rows. fst (select w table query) = Resolved (Rows rows) \<and>
           set rows = {r \<in> set (storedRows w table). list_all (matches r) query}"
proof -
  let ?batch = "\<lambda>entry. filter (\<lambda>r. matches r entry) (records store)"
  let ?batches = "map ?batch query"
  have scans: "scan store (equalityClause entry) = Inr (?batch entry)" if "entry \<in> set query" for entry
    using that assms(3,4) by (intro scan_equalityClause) (auto simp: equalityQuery_def list_all_iff)
  have all: "Promise_all (map (scan store) (map equalityClause query)) = Inr ?batches"
    using scans by (simp add: Promise_all_map comp_def)
  have ne: "?batches \<noteq> []"
    using assms(2) by simp
  have sel: "fst (select w table query) = mergeResults [] [] ?batches"
    using all by (simp add: select_ready [OF assms(1)] destructureQuery_equality [OF assms(3)])
  have merged: "mergeResults [] [] ?batches =
                  Resolved (Rows (if length ?batches \<le> 1 then hd ?batches
                                  else intersection ?batches))"
    using mergeResults_outcome [of "[]" "scan store" ?batches] ne
    by (cases ?batches) auto
  have rows: "set (if length ?batches \<le> 1 then hd ?batches else intersection ?batches) =
                {r \<in> set (records store). list_all (matches r) query}"
  proof (cases "length ?batches \<le> 1")
    case True
    then obtain entry where "query = [entry]"
      using assms(2) by (cases query) auto
    then show ?thesis by auto
  next
    case False
    then show ?thesis
      using assms(2) by (cases query) (auto simp: set_intersection list_all_iff)
  qed
  show ?thesis
    using sel merged rows by (simp add: ready_stored [OF assms(1)])
qed

text \<open>The people called John who are 69, on the example table.\<close>

theorem select_equality_rows_witness:
  "ready examplePage ''People'' (peopleStore people) \<and>
   [(''firstName'', Value (JStr ''John'')), (''age'', Value (JNum 69))] \<noteq> [] \<and>
   equalityQuery [(''firstName'', Value (JStr ''John'')), (''age'', Value (JNum 69))] \<and>
   list_all (\<lambda>entry. indexedColumn (peopleStore people) (fst entry))
     [(''firstName'', Value (JStr ''John'')), (''age'', Value (JNum 69))] \<and>
   (\<exists>rows. fst (select examplePage ''People''
                   [(''firstName'', Value (JStr ''John'')), (''age'', Value (JNum 69))]) =
              Resolved (Rows rows) \<and>
            set rows = {person 6 ''John'' ''Gilmore'' 69, person 5 ''John'' ''Robson'' 69})"
proof -
  let ?query = "[(''firstName'', Value (JStr ''John'')), (''age'', Value (JNum 69))]"
  have n: "?query \<noteq> []"
    by simp
  have e: "equalityQuery ?query"
    by (simp add: equalityQuery_def validKey_def)
  have i: "list_all (\<lambda>entry. indexedColumn (peopleStore people) (fst entry)) ?query"
    by (simp add: people_indexed)
  have m: "{r \<in> set (storedRows examplePage ''People''). list_all (matches r) ?query} =
             {person 6 ''John'' ''Gilmore'' 69, person 5 ''John'' ''Robson'' 69}"
  proof -
    have "filter (\<lambda>r. list_all (matches r) ?query) people =
            [person 6 ''John'' ''Gilmore'' 69, person 5 ''John'' ''Robson'' 69]"
      by (simp add: people_def person_def matches_def)
    then have "set (filter (\<lambda>r. list_all (matches r) ?query) people) =
                 {person 6 ''John'' ''Gilmore'' 69, person 5 ''John'' ''Robson'' 69}"
      by simp
    then show ?thesis
      by (simp only: page_stored set_filter)
  qed
  note r = page_ready
  have c: "\<exists>rows. fst (select examplePage ''People'' ?query) = Resolved (Rows rows) \<and>
             set rows = {person 6 ''John'' ''Gilmore'' 69, person 5 ''John'' ''Robson'' 69}"
    using select_equality_rows [OF r n e i] unfolding m .
  show ?thesis
    using r n e i c by (intro conjI)
qed

text \<open>
  Claim C1 as stated fails on the empty query, which every stored row matches: select
  resolves with \<^verbatim>\<open>undefined\<close> instead of the four stored rows. It fails as well on a
  field whose value is \<^verbatim>\<open>null\<close>: the engine reads that query as "every record of the
  index", so the query for age \<^verbatim>\<open>null\<close>, which no stored row matches, resolves with
  all four rows.
\<close>

theorem select_empty_query_undefined:
  "fst (select examplePage ''People'' []) = Resolved ResultUndefined \<and>
   storedRows examplePage ''People'' = people \<and>
   fst (select examplePage ''People'' [(''age'', Value JNull)]) =
     Resolved (Rows people) \<and>
   filter (\<lambda>r. matches r (''age'', Value JNull)) people = []"
proof -
  have c0: "fst (select examplePage ''People'' []) = Resolved ResultUndefined"
    by (simp add: select_ready [OF page_ready] mergeResults_def)
  have s: "scan (peopleStore people) (''age'', Key JNull) = Inr people"
    by (simp add: scan_def getIndex_def store_index_def peopleStore_def IDBIndex_getAll_def
          keyOf_def validKey_def people_def person_def)
  have c1: "fst (select examplePage ''People'' [(''age'', Value JNull)]) =
              Resolved (Rows people)"
    by (simp add: select_ready [OF page_ready] destructureEntry_Value s mergeResults_def)
  have m: "filter (\<lambda>r. matches r (''age'', Value JNull)) people = []"
    by (simp add: matches_def people_def person_def)
  show ?thesis
    using c0 page_stored c1 m by (intro conjI)
qed


section \<open>Exclusion\<close>

text \<open>
  Claim C4, as the code has it. For a query with at least one inclusion clause and with
  \<^verbatim>\<open>$ne\<close> fields on indexed columns whose excluded values are numbers or strings,
  select resolves with the asymmetric difference: the intersection of the inclusion
  batches without the rows that hold the excluded value in every \<^verbatim>\<open>$ne\<close> field (the
  exclusion batches are intersected like the inclusion batches); with one \<^verbatim>\<open>$ne\<close>
  field these are the rows that hold its excluded value. Each exclusion scan reads the
  stored rows that hold the excluded value; rows found only there are not in the result,
  which holds rows of every inclusion batch only.
\<close>

theorem select_exclusion_difference:
  assumes "ready w table store"
    and "destructureQuery ([], []) query = Inr (additiveQueries, subtractiveQueries)"
    and "additiveQueries \<noteq> []"
    and "subtractiveQueries \<noteq> []"
    and "Promise_all (map (scan store) additiveQueries) = Inr additiveResult"
    and "list_all (exclusionClause store) subtractiveQueries"
  shows "fst (select w table query) =
           Resolved (Rows (filter (\<lambda>r. \<not> list_all (excludedBy r) subtractiveQueries)
                             (intersection additiveResult))) \<and>
         (\<forall>q\<in>set subtractiveQueries.
            scan store q = Inr (filter (\<lambda>r. excludedBy r q) (storedRows w table))) \<and>
         set (filter (\<lambda>r. \<not> list_all (excludedBy r) subtractiveQueries)
                (intersection additiveResult)) =
           {r. (\<forall>b\<in>set additiveResult. r \<in> set b) \<and>
               \<not> list_all (excludedBy r) subtractiveQueries}"
proof -
  let ?excluded = "\<lambda>q. filter (\<lambda>r. excludedBy r q) (records store)"
  have ne: "additiveResult \<noteq> []"
    using assms(3,5) by (auto simp: Promise_all_map split: if_splits)
  have ex: "scan store q = Inr (?excluded q)" if "q \<in> set subtractiveQueries" for q
    using that assms(6) by (intro scan_exclusionClause) (simp add: list_all_iff)
  have ok: "\<not> (\<exists>q\<in>set subtractiveQueries. isl (scan store q))"
    using ex by auto
  have batches: "map (\<lambda>q. projr (scan store q)) subtractiveQueries =
                   map ?excluded subtractiveQueries"
    using ex by simp
  have inside: "set (intersection additiveResult) \<subseteq> set (records store)"
    using Promise_all_scans [OF assms(5)] ne by (auto simp: intersection_def)
  have member: "r \<in> set (intersection (map ?excluded subtractiveQueries)) \<longleftrightarrow>
                  list_all (excludedBy r) subtractiveQueries"
    if "r \<in> set (records store)" for r
    using that assms(4) by (auto simp: set_intersection list_all_iff)
  have keep: "filter (\<lambda>r. r \<notin> set (intersection (map ?excluded subtractiveQueries)))
                (intersection additiveResult) =
              filter (\<lambda>r. \<not> list_all (excludedBy r) subtractiveQueries)
                (intersection additiveResult)"
    using inside member by (intro filter_cong) auto
  have "mergeResults subtractiveQueries (map (scan store) subtractiveQueries) additiveResult =
          Resolved (Rows (filter
            (\<lambda>r. r \<notin> set (intersection (map ?excluded subtractiveQueries)))
            (intersection additiveResult)))"
    unfolding mergeResults_outcome batches using ne assms(4) ok by simp
  then have "fst (select w table query) =
               Resolved (Rows (filter (\<lambda>r. \<not> list_all (excludedBy r) subtractiveQueries)
                                 (intersection additiveResult)))"
    using assms(2,5) unfolding keep by (simp add: select_ready [OF assms(1)])
  then show ?thesis
    using ex ne by (auto simp: ready_stored [OF assms(1)] set_intersection)
qed

text \<open>
  The people called John on the example table. With the two fields last name not Gilmore
  and age not 42 nobody is left out, since nobody is a Gilmore of 42; with the one field
  last name not Gilmore the John called Gilmore is left out.
\<close>

theorem select_exclusion_difference_witness:
  "ready examplePage ''People'' (peopleStore people) \<and>
   destructureQuery ([], [])
     [(''firstName'', Value (JStr ''John'')),
      (''lastName'', Operators \<lparr>gt = None, gte = None, lt = None, lte = None,
                                  ne = Some (JStr ''Gilmore'')\<rparr>),
      (''age'', Operators \<lparr>gt = None, gte = None, lt = None, lte = None,
                             ne = Some (JNum 42)\<rparr>)] =
     Inr ([(''firstName'', Key (JStr ''John''))],
          [(''lastName'', Key (JStr ''Gilmore'')), (''age'', Key (JNum 42))]) \<and>
   [(''firstName'', Key (JStr ''John''))] \<noteq> [] \<and>
   [(''lastName'', Key (JStr ''Gilmore'')), (''age'', Key (JNum 42))] \<noteq> [] \<and>
   Promise_all (map (scan (peopleStore people)) [(''firstName'', Key (JStr ''John''))]) =
     Inr [[person 1 ''John'' ''Doe'' 42, person 6 ''John'' ''Gilmore'' 69,
           person 5 ''John'' ''Robson'' 69]] \<and>
   list_all (exclusionClause (peopleStore people))
     [(''lastName'', Key (JStr ''Gilmore'')), (''age'', Key (JNum 42))] \<and>
   fst (select examplePage ''People''
     [(''firstName'', Value (JStr ''John'')),
      (''lastName'', Operators \<lparr>gt = None, gte = None, lt = None, lte = None,
                                  ne = Some (JStr ''Gilmore'')\<rparr>),
      (''age'', Operators \<lparr>gt = None, gte = None, lt = None, lte = None,
                             ne = Some (JNum 42)\<rparr>)]) =
     Resolved (Rows [person 1 ''John'' ''Doe'' 42, person 6 ''John'' ''Gilmore'' 69,
                     person 5 ''John'' ''Robson'' 69]) \<and>
   destructureQuery ([], [])
     [(''firstName'', Value (JStr ''John'')),
      (''lastName'', Operators \<lparr>gt = None, gte = None, lt = None, lte = None,
                                  ne = Some (JStr ''Gilmore'')\<rparr>)] =
     Inr ([(''firstName'', Key (JStr ''John''))], [(''lastName'', Key (JStr ''Gilmore''))]) \<and>
   [(''lastName'', Key (JStr ''Gilmore''))] \<noteq> [] \<and>
   list_all (exclusionClause (peopleStore people)) [(''lastName'', Key (JStr ''Gilmore''))] \<and>
   fst (select examplePage ''People''
     [(''firstName'', Value (JStr ''John'')),
      (''lastName'', Operators \<lparr>gt = None, gte = None, lt = None, lte = None,
                                  ne = Some (JStr ''Gilmore'')\<rparr>)]) =
     Resolved (Rows [person 1 ''John'' ''Doe'' 42, person 5 ''John'' ''Robson'' 69]) \<and>
   scan (peopleStore people) (''lastName'', Key (JStr ''Gilmore'')) =
     Inr [person 6 ''John'' ''Gilmore'' 69, person 3 ''Harry'' ''Gilmore'' 30]"
proof -
  let ?doe = "person 1 ''John'' ''Doe'' 42" and ?gilmore = "person 6 ''John'' ''Gilmore'' 69"
    and ?robson = "person 5 ''John'' ''Robson'' 69" and ?harry = "person 3 ''Harry'' ''Gilmore'' 30"
  let ?two = "[(''lastName'', Key (JStr ''Gilmore'')), (''age'', Key (JNum 42))]"
  let ?one = "[(''lastName'', Key (JStr ''Gilmore''))]"
  note d2 = exclusion_clauses(1) [of "JStr ''Gilmore''" "JNum 42"]
  note d1 = exclusion_clauses(2) [of "JStr ''Gilmore''"]
  have n: "[(''firstName'', Key (JStr ''John''))] \<noteq> []" "?two \<noteq> []" "?one \<noteq> []"
    by simp_all
  have e2: "list_all (exclusionClause (peopleStore people)) ?two"
    and e1: "list_all (exclusionClause (peopleStore people)) ?one"
    by (simp_all add: exclusionClause_def people_indexed validKey_def)
  have i: "intersection [[?doe, ?gilmore, ?robson]] = [?doe, ?gilmore, ?robson]"
    by (simp add: intersection_def cong: filter_cong)
  have f2: "filter (\<lambda>r. \<not> list_all (excludedBy r) ?two) [?doe, ?gilmore, ?robson] =
              [?doe, ?gilmore, ?robson]"
    by (simp add: excludedBy_def person_def)
  have f1: "filter (\<lambda>r. \<not> list_all (excludedBy r) ?one) [?doe, ?gilmore, ?robson] =
              [?doe, ?robson]"
    by (simp add: excludedBy_def person_def)
  note c2 = select_exclusion_difference [OF page_ready d2 n(1) n(2) johns e2, unfolded i f2]
  note c1 = select_exclusion_difference [OF page_ready d1 n(1) n(3) johns e1, unfolded i f1]
  have r2: "fst (select examplePage ''People''
     [(''firstName'', Value (JStr ''John'')),
      (''lastName'', Operators \<lparr>gt = None, gte = None, lt = None, lte = None,
                                  ne = Some (JStr ''Gilmore'')\<rparr>),
      (''age'', Operators \<lparr>gt = None, gte = None, lt = None, lte = None,
                             ne = Some (JNum 42)\<rparr>)]) = Resolved (Rows [?doe, ?gilmore, ?robson])"
    using c2 by blast
  have r1: "fst (select examplePage ''People''
     [(''firstName'', Value (JStr ''John'')),
      (''lastName'', Operators \<lparr>gt = None, gte = None, lt = None, lte = None,
                                  ne = Some (JStr ''Gilmore'')\<rparr>)]) = Resolved (Rows [?doe, ?robson])"
    using c1 by blast
  have x: "scan (peopleStore people) (''lastName'', Key (JStr ''Gilmore'')) = Inr [?gilmore, ?harry]"
    using c1 by (simp add: page_stored people_def person_def excludedBy_def)
  show ?thesis
    using page_ready d2 n(1) n(2) johns e2 r2 d1 n(3) e1 r1 x by (intro conjI)
qed

text \<open>
  Claim C4 as stated fails where there are two \<^verbatim>\<open>$ne\<close> fields: for the people called
  John whose last name is not Gilmore and whose age is not 69, the result keeps John
  Robson, whose age is the excluded 69, because only the row that is excluded by both
  fields is removed. It fails as well for the excluded value \<^verbatim>\<open>null\<close>, which the engine
  reads as "every record of the index": once a John without last name is added, the query
  for the people called John whose last name is not \<^verbatim>\<open>null\<close> resolves with that very
  row and removes the others.
\<close>

theorem select_exclusions_keep_excluded_row:
  "fst (select examplePage ''People''
     [(''firstName'', Value (JStr ''John'')),
      (''lastName'', Operators \<lparr>gt = None, gte = None, lt = None, lte = None,
                                  ne = Some (JStr ''Gilmore'')\<rparr>),
      (''age'', Operators \<lparr>gt = None, gte = None, lt = None, lte = None,
                             ne = Some (JNum 69)\<rparr>)]) =
     Resolved (Rows [person 1 ''John'' ''Doe'' 42, person 5 ''John'' ''Robson'' 69]) \<and>
   map_of (person 5 ''John'' ''Robson'' 69) ''age'' = Some (JNum 69) \<and>
   fst (select (snd (add examplePage ''People'' anonymous \<lparr>upsert = True\<rparr>)) ''People''
     [(''firstName'', Value (JStr ''John'')),
      (''lastName'', Operators \<lparr>gt = None, gte = None, lt = None, lte = None,
                                  ne = Some JNull\<rparr>)]) =
     Resolved (Rows [anonymous]) \<and>
   map_of anonymous ''lastName'' = Some JNull \<and>
   map_of (person 1 ''John'' ''Doe'' 42) ''lastName'' \<noteq> Some JNull"
proof -
  let ?doe = "person 1 ''John'' ''Doe'' 42" and ?gilmore = "person 6 ''John'' ''Gilmore'' 69"
    and ?robson = "person 5 ''John'' ''Robson'' 69" and ?harry = "person 3 ''Harry'' ''Gilmore'' 30"
  let ?two = "[(''lastName'', Key (JStr ''Gilmore'')), (''age'', Key (JNum 69))]"
  let ?null = "[(''lastName'', Key JNull)]"
  let ?more = "people @ [anonymous]"
  have s2: "scan (peopleStore people) (''lastName'', Key (JStr ''Gilmore'')) =
              Inr [?gilmore, ?harry]"
    "scan (peopleStore people) (''age'', Key (JNum 69)) = Inr [?gilmore, ?robson]"
    by (simp_all add: scan_key people_indexed people_records validKey_def people_def person_def)
  have x2: "map (\<lambda>q. projr (scan (peopleStore people) q)) ?two =
              [[?gilmore, ?harry], [?gilmore, ?robson]]"
    "(\<exists>q\<in>set ?two. isl (scan (peopleStore people) q)) = False"
    by (simp_all add: s2)
  have m2: "mergeResults ?two (map (scan (peopleStore people)) ?two) [[?doe, ?gilmore, ?robson]] =
              Resolved (Rows [?doe, ?robson])"
    unfolding mergeResults_outcome x2 by (simp add: intersection_def person_def)
  have r2: "fst (select examplePage ''People''
     [(''firstName'', Value (JStr ''John'')),
      (''lastName'', Operators \<lparr>gt = None, gte = None, lt = None, lte = None,
                                  ne = Some (JStr ''Gilmore'')\<rparr>),
      (''age'', Operators \<lparr>gt = None, gte = None, lt = None, lte = None,
                             ne = Some (JNum 69)\<rparr>)]) = Resolved (Rows [?doe, ?robson])"
    unfolding select_ready [OF page_ready] exclusion_clauses prod.case sum.case johns m2 ..
  have a: "Promise_all (map (scan (peopleStore ?more)) [(''firstName'', Key (JStr ''John''))]) =
             Inr [[?doe, ?gilmore, ?robson, anonymous]]"
    by (simp add: scan_key people_indexed people_records validKey_def people_def person_def
          anonymous_def)
  have xn: "scan (peopleStore ?more) (''lastName'', Key JNull) =
              Inr [?doe, ?gilmore, ?robson, ?harry]"
    by (simp add: scan_def getIndex_def store_index_def peopleStore_def IDBIndex_getAll_def
          keyOf_def validKey_def people_def person_def anonymous_def)
  have xn2: "map (\<lambda>q. projr (scan (peopleStore ?more) q)) ?null =
               [[?doe, ?gilmore, ?robson, ?harry]]"
    "(\<exists>q\<in>set ?null. isl (scan (peopleStore ?more) q)) = False"
    by (simp_all add: xn)
  have mn: "mergeResults ?null (map (scan (peopleStore ?more)) ?null)
              [[?doe, ?gilmore, ?robson, anonymous]] = Resolved (Rows [anonymous])"
    unfolding mergeResults_outcome xn2 by (simp add: intersection_def person_def anonymous_def)
  have rn: "fst (select (snd (add examplePage ''People'' anonymous \<lparr>upsert = True\<rparr>)) ''People''
     [(''firstName'', Value (JStr ''John'')),
      (''lastName'', Operators \<lparr>gt = None, gte = None, lt = None, lte = None,
                                  ne = Some JNull\<rparr>)]) = Resolved (Rows [anonymous])"
    unfolding add_anonymous select_ready [OF people_ready] exclusion_clauses prod.case sum.case
      a mn ..
  have p: "map_of ?robson ''age'' = Some (JNum 69)" "map_of anonymous ''lastName'' = Some JNull"
    "map_of ?doe ''lastName'' \<noteq> Some JNull"
    by (simp_all add: person_def anonymous_def)
  show ?thesis
    using r2 p(1) rn p(2) p(3) by (intro conjI)
qed


section \<open>Bounds given twice, bounds given once\<close>

text \<open>
  Claim C2 says that \<^verbatim>\<open>$gt\<close> and \<^verbatim>\<open>$gte\<close> with the same value give an exclusive lower
  bound, and likewise \<^verbatim>\<open>$lt\<close> and \<^verbatim>\<open>$lte\<close> an exclusive upper bound. The code decides
  inclusivity by comparing the effective bound with \<^verbatim>\<open>$gte\<close> (\<^verbatim>\<open>$lte\<close>), which is true
  at a tie, so the range it builds is closed at that end: with both lower bounds at 30
  the person aged 30 is returned, against the meaning of \<^verbatim>\<open>$gt\<close>, and with both upper
  bounds at 30 as well.
\<close>

theorem tie_bounds_inclusive:
  "rangeQueries ''age'' \<lparr>gt = Some 30, gte = Some 30, lt = None, lte = None, ne = None\<rparr> =
     Inr [(''age'', KeyRange \<lparr>lower = Some 30, upper = None, lowerOpen = False,
                               upperOpen = True\<rparr>)] \<and>
   fst (select examplePage ''People''
          [(''age'', Operators \<lparr>gt = Some 30, gte = Some 30, lt = None, lte = None,
                                 ne = None\<rparr>)]) =
     Resolved (Rows [person 1 ''John'' ''Doe'' 42, person 6 ''John'' ''Gilmore'' 69,
                     person 5 ''John'' ''Robson'' 69, person 3 ''Harry'' ''Gilmore'' 30]) \<and>
   rangeQueries ''age'' \<lparr>gt = None, gte = None, lt = Some 30, lte = Some 30, ne = None\<rparr> =
     Inr [(''age'', KeyRange \<lparr>lower = None, upper = Some 30, lowerOpen = True,
                               upperOpen = False\<rparr>)] \<and>
   fst (select examplePage ''People''
          [(''age'', Operators \<lparr>gt = None, gte = None, lt = Some 30, lte = Some 30,
                                 ne = None\<rparr>)]) =
     Resolved (Rows [person 3 ''Harry'' ''Gilmore'' 30])"
proof -
  let ?low = "\<lparr>gt = Some 30, gte = Some 30, lt = None, lte = None, ne = None\<rparr>"
  let ?high = "\<lparr>gt = None, gte = None, lt = Some 30, lte = Some 30, ne = None\<rparr>"
  let ?lowRange = "\<lparr>lower = Some 30, upper = None, lowerOpen = False, upperOpen = True\<rparr>"
  let ?highRange = "\<lparr>lower = None, upper = Some 30, lowerOpen = True, upperOpen = False\<rparr>"
  have r1: "rangeQueries ''age'' ?low = Inr [(''age'', KeyRange ?lowRange)]"
    by (simp add: rangeQueries_def effectiveGreaterThan_def effectiveLessThan_def
          IDBKeyRange_lowerBound_def)
  have r2: "rangeQueries ''age'' ?high = Inr [(''age'', KeyRange ?highRange)]"
    by (simp add: rangeQueries_def effectiveGreaterThan_def effectiveLessThan_def
          IDBKeyRange_upperBound_def)
  have d1: "destructureQuery ([], []) [(''age'', Operators ?low)] =
              Inr ([(''age'', KeyRange ?lowRange)], [])"
    by (simp add: destructureEntry_def isPrimitive_def r1)
  have d2: "destructureQuery ([], []) [(''age'', Operators ?high)] =
              Inr ([(''age'', KeyRange ?highRange)], [])"
    by (simp add: destructureEntry_def isPrimitive_def r2)
  have s1: "scan (peopleStore people) (''age'', KeyRange ?lowRange) =
              Inr [person 1 ''John'' ''Doe'' 42, person 6 ''John'' ''Gilmore'' 69,
                   person 5 ''John'' ''Robson'' 69, person 3 ''Harry'' ''Gilmore'' 30]"
    by (simp add: scan_range people_indexed people_records people_def person_def keyOf_def
          validKey_def IDBKeyRange_includes_def)
  have s2: "scan (peopleStore people) (''age'', KeyRange ?highRange) =
              Inr [person 3 ''Harry'' ''Gilmore'' 30]"
    by (simp add: scan_range people_indexed people_records people_def person_def keyOf_def
          validKey_def IDBKeyRange_includes_def)
  have c1: "fst (select examplePage ''People'' [(''age'', Operators ?low)]) =
              Resolved (Rows [person 1 ''John'' ''Doe'' 42, person 6 ''John'' ''Gilmore'' 69,
                     person 5 ''John'' ''Robson'' 69, person 3 ''Harry'' ''Gilmore'' 30])"
    unfolding select_ready [OF page_ready] d1 by (simp add: s1 mergeResults_def)
  have c2: "fst (select examplePage ''People'' [(''age'', Operators ?high)]) =
              Resolved (Rows [person 3 ''Harry'' ''Gilmore'' 30])"
    unfolding select_ready [OF page_ready] d2 by (simp add: s2 mergeResults_def)
  show ?thesis
    using r1 c1 r2 c2 by (intro conjI)
qed

text \<open>
  Claim C3 says that \<^verbatim>\<open>$lte\<close> alone gives an inclusive upper-bound scan and \<^verbatim>\<open>$gte\<close>
  alone an inclusive lower-bound scan. The code computes the effective bound, as the
  branch for two-sided ranges uses it, but passes \<^verbatim>\<open>columnEntry.$lt\<close>
  (\<^verbatim>\<open>columnEntry.$gt\<close>) to the key range: with \<^verbatim>\<open>$lte\<close> or \<^verbatim>\<open>$gte\<close> alone that is
  \<^verbatim>\<open>undefined\<close>, the key range raises a DataError and select is rejected. With
  \<^verbatim>\<open>$lt: 60\<close> and \<^verbatim>\<open>$lte: 50\<close> the scan is bounded by 60, not by the smaller 50.
\<close>

theorem inclusive_bound_alone_rejected:
  "rangeQueries ''age'' \<lparr>gt = None, gte = None, lt = None, lte = Some 60, ne = None\<rparr> =
     Inl DataError \<and>
   fst (select examplePage ''People''
          [(''age'', Operators \<lparr>gt = None, gte = None, lt = None, lte = Some 60,
                                 ne = None\<rparr>)]) = Rejected DataError \<and>
   rangeQueries ''age'' \<lparr>gt = None, gte = Some 20, lt = None, lte = None, ne = None\<rparr> =
     Inl DataError \<and>
   fst (select examplePage ''People''
          [(''age'', Operators \<lparr>gt = None, gte = Some 20, lt = None, lte = None,
                                 ne = None\<rparr>)]) = Rejected DataError \<and>
   rangeQueries ''age'' \<lparr>gt = None, gte = None, lt = Some 60, lte = Some 50, ne = None\<rparr> =
     Inr [(''age'', KeyRange \<lparr>lower = None, upper = Some 60, lowerOpen = True,
                               upperOpen = False\<rparr>)]"
proof -
  let ?lte = "\<lparr>gt = None, gte = None, lt = None, lte = Some 60, ne = None\<rparr>"
  let ?gte = "\<lparr>gt = None, gte = Some 20, lt = None, lte = None, ne = None\<rparr>"
  have r1: "rangeQueries ''age'' ?lte = Inl DataError"
    by (simp add: rangeQueries_def effectiveGreaterThan_def effectiveLessThan_def
          IDBKeyRange_upperBound_def)
  have r2: "rangeQueries ''age'' ?gte = Inl DataError"
    by (simp add: rangeQueries_def effectiveGreaterThan_def effectiveLessThan_def
          IDBKeyRange_lowerBound_def)
  have r3: "rangeQueries ''age''
              \<lparr>gt = None, gte = None, lt = Some 60, lte = Some 50, ne = None\<rparr> =
            Inr [(''age'', KeyRange \<lparr>lower = None, upper = Some 60, lowerOpen = True,
                                      upperOpen = False\<rparr>)]"
    by (simp add: rangeQueries_def effectiveGreaterThan_def effectiveLessThan_def
          IDBKeyRange_upperBound_def)
  have d1: "destructureQuery ([], []) [(''age'', Operators ?lte)] = Inl DataError"
    by (simp add: destructureEntry_def isPrimitive_def r1)
  have d2: "destructureQuery ([], []) [(''age'', Operators ?gte)] = Inl DataError"
    by (simp add: destructureEntry_def isPrimitive_def r2)
  have c1: "fst (select examplePage ''People'' [(''age'', Operators ?lte)]) =
              Rejected DataError"
    unfolding select_ready [OF page_ready] d1 by simp
  have c2: "fst (select examplePage ''People'' [(''age'', Operators ?gte)]) =
              Rejected DataError"
    unfolding select_ready [OF page_ready] d2 by simp
  show ?thesis
    using r1 c1 r2 c2 r3 by (intro conjI)
qed


section \<open>Initialisation\<close>

text \<open>
  Claim C10. Every call of \<open>init\<close> asks the engine to delete the database named by the
  schema and then to open it, in this order. The database it opens is therefore new and
  is upgraded from nothing: when \<open>init\<close> has completed, every table reads as empty and
  every table of the schema has its object store, without records, whatever was stored
  before.
\<close>

theorem init_starts_empty:
  assumes "init w (new_DatabaseSchema name tbls) = (Resolved u, w')"
  shows "calls w' = calls w @ [DeleteDatabase name, Open name LocalDatabase_version] \<and>
         (\<forall>table. storedRows w' table = []) \<and>
         (\<forall>t\<in>set tbls. table_name t \<noteq> [] \<longrightarrow>
            (\<exists>store. ready w' (table_name t) store \<and> records store = []))"
proof -
  let ?schema = "new_DatabaseSchema name tbls"
  let ?empty = "\<lparr>database_version = 0, objectStores = []\<rparr>"
  obtain factory where f: "window_indexedDB w = Some factory"
    using assms by (cases "window_indexedDB w") (auto simp: init_def)
  have nm: "database_name ?schema = name" "tables ?schema = tbls"
    "tableNames ?schema = map table_name tbls"
    by (simp_all add: new_DatabaseSchema_def)
  have op: "IDBFactory_open (IDBFactory_deleteDatabase factory name) name LocalDatabase_version =
              Upgradeneeded ?empty"
    by (simp add: IDBFactory_open_def IDBFactory_deleteDatabase_def)
  obtain db' where up: "upgradeTables ?empty tbls = Inr db'"
    using assms f op nm
    by (cases "upgradeTables ?empty tbls") (auto simp: init_def Let_def upgrade_def)
  let ?db = "db'\<lparr>database_version := LocalDatabase_version\<rparr>"
  have w': "w' = w\<lparr>LocalDatabase_schema := Some ?schema,
                   window_indexedDB :=
                     Some ((IDBFactory_deleteDatabase factory name)(name \<mapsto> ?db)),
                   calls := calls w @ [DeleteDatabase name, Open name LocalDatabase_version],
                   LocalDatabase_instance := Some name\<rparr>"
    using assms f op nm up by (auto simp: init_def Let_def upgrade_def)
  from upgradeTables_stores [OF up] have
    names: "map store_name (objectStores db') = map table_name tbls"
    and empty: "\<forall>s\<in>set (objectStores db'). records s = []"
    by auto
  have stored: "storedRows w' table = []" for table
  proof (cases "objectStore ?db table")
    case None
    then show ?thesis by (simp add: w' storedRows_def)
  next
    case (Some store)
    then have "store \<in> set (objectStores db')"
      by (auto simp: objectStore_def dest: find_in_set)
    then show ?thesis
      using Some empty by (simp add: w' storedRows_def)
  qed
  have tables: "\<exists>store. ready w' (table_name t) store \<and> records store = []"
    if "t \<in> set tbls" "table_name t \<noteq> []" for t
  proof -
    have "table_name t \<in> set (map store_name (objectStores db'))"
      using that(1) names by simp
    from find_store_name [OF this] obtain store where
      s: "objectStore ?db (table_name t) = Some store" "store \<in> set (objectStores db')"
      by (auto simp: objectStore_def)
    have "ready w' (table_name t) store"
      using that s(1) nm(3) by (simp add: w' ready_def)
    then show ?thesis
      using s(2) empty by blast
  qed
  show ?thesis
    using stored tables by (simp add: w')
qed

text \<open>
  A second \<open>init\<close> in the world the example page has reached, in which People holds
  four people: the table is empty afterwards.
\<close>

theorem init_starts_empty_witness:
  "storedRows examplePage ''People'' = people \<and>
   init examplePage (new_DatabaseSchema ''MyDatabase'' [peopleTable]) =
     (Resolved (),
      peopleWorld []
        [DeleteDatabase ''MyDatabase'', Open ''MyDatabase'' 1,
         Transaction ''People'' Readwrite, Transaction ''People'' Readwrite,
         Transaction ''People'' Readwrite, Transaction ''People'' Readwrite,
         DeleteDatabase ''MyDatabase'', Open ''MyDatabase'' 1]) \<and>
   storedRows (snd (init examplePage (new_DatabaseSchema ''MyDatabase'' [peopleTable])))
     ''People'' = [] \<and>
   peopleTable \<in> set [peopleTable] \<and> table_name peopleTable \<noteq> [] \<and>
   (\<exists>store. ready (snd (init examplePage (new_DatabaseSchema ''MyDatabase'' [peopleTable])))
              (table_name peopleTable) store \<and> records store = [])"
proof -
  let ?after = "peopleWorld []
        [DeleteDatabase ''MyDatabase'', Open ''MyDatabase'' 1,
         Transaction ''People'' Readwrite, Transaction ''People'' Readwrite,
         Transaction ''People'' Readwrite, Transaction ''People'' Readwrite,
         DeleteDatabase ''MyDatabase'', Open ''MyDatabase'' 1]"
  have i: "init examplePage (new_DatabaseSchema ''MyDatabase'' [peopleTable]) =
             (Resolved (), ?after)"
    using init_page by (simp add: dbSchema_def)
  have t: "peopleTable \<in> set [peopleTable]" "table_name peopleTable \<noteq> []"
    by (simp_all add: peopleTable_def)
  note c = init_starts_empty [OF i]
  have c1: "storedRows ?after ''People'' = []"
    using c by blast
  have c2: "\<exists>store. ready ?after (table_name peopleTable) store \<and> records store = []"
    using c t by blast
  show ?thesis
    unfolding i snd_conv using page_stored c1 t c2 by (intro conjI) simp_all
qed


section \<open>The order of the fields\<close>

text \<open>
  Claim C8. Two queries with the same field entries in different orders give the same
  set of rows: both calls of select resolve with row sequences of equal sets, or both
  resolve with \<^verbatim>\<open>undefined\<close>, or both fail in the same way (thrown, rejected or never
  settled). This holds in every world and for every query.
\<close>

theorem select_order_independent:
  assumes "mset query' = mset query"
  shows "sameRows (fst (select w table query)) (fst (select w table query'))"
proof -
  let ?entry = "destructureEntry ([], [])"
  have setq: "set query' = set query"
    using assms by (rule mset_eq_setD)
  have outcome: "sameRows (selectOutcome w table query) (selectOutcome w table query')"
  proof (cases "\<exists>entry\<in>set query. isl (?entry entry)")
    case True
    then obtain e e' where "destructureQuery ([], []) query = Inl e"
      "destructureQuery ([], []) query' = Inl e'"
      using destructureQuery_fails [of query "[]" "[]"] destructureQuery_fails [of query' "[]" "[]"]
        setq
      by (cases "destructureQuery ([], []) query"; cases "destructureQuery ([], []) query'") auto
    then show ?thesis
      by (simp add: selectOutcome_def)
  next
    case False
    let ?a = "\<lambda>q. concat (map (\<lambda>entry. fst (projr (?entry entry))) q)"
    let ?s = "\<lambda>q. concat (map (\<lambda>entry. snd (projr (?entry entry))) q)"
    have d: "destructureQuery ([], []) query = Inr (?a query, ?s query)"
      "destructureQuery ([], []) query' = Inr (?a query', ?s query')"
      using False setq destructureQuery_ok [of query "[]" "[]"]
        destructureQuery_ok [of query' "[]" "[]"]
      by simp_all
    have m: "mset (?a query') = mset (?a query)" "mset (?s query') = mset (?s query)"
      by (rule mset_concat_map [OF assms])+
    show ?thesis
    proof (cases "fst (transaction w table Readonly)")
      case (Inl e)
      then show ?thesis by (simp add: selectOutcome_def d)
    next
      case (Inr store)
      then show ?thesis
        using merge_order [OF m, of store] by (simp add: selectOutcome_def d)
    qed
  qed
  show ?thesis
    using outcome by (simp add: select_outcome sameRows_refl split: option.splits)
qed

text \<open>
  The query of the documentation and a rotation of its three fields: both resolve, and
  with the same single row.
\<close>

theorem select_order_independent_witness:
  "mset [(''age'', Value (JNum 69)),
         (''lastName'', Operators \<lparr>gt = None, gte = None, lt = None, lte = None,
                                     ne = Some (JStr ''Gilmore'')\<rparr>),
         (''firstName'', Value (JStr ''John''))] =
   mset [(''firstName'', Value (JStr ''John'')), (''age'', Value (JNum 69)),
         (''lastName'', Operators \<lparr>gt = None, gte = None, lt = None, lte = None,
                                     ne = Some (JStr ''Gilmore'')\<rparr>)] \<and>
   sameRows
     (fst (select examplePage ''People''
        [(''firstName'', Value (JStr ''John'')), (''age'', Value (JNum 69)),
         (''lastName'', Operators \<lparr>gt = None, gte = None, lt = None, lte = None,
                                     ne = Some (JStr ''Gilmore'')\<rparr>)]))
     (fst (select examplePage ''People''
        [(''age'', Value (JNum 69)),
         (''lastName'', Operators \<lparr>gt = None, gte = None, lt = None, lte = None,
                                     ne = Some (JStr ''Gilmore'')\<rparr>),
         (''firstName'', Value (JStr ''John''))])) \<and>
   (\<exists>rows. fst (select examplePage ''People''
        [(''age'', Value (JNum 69)),
         (''lastName'', Operators \<lparr>gt = None, gte = None, lt = None, lte = None,
                                     ne = Some (JStr ''Gilmore'')\<rparr>),
         (''firstName'', Value (JStr ''John''))]) = Resolved (Rows rows) \<and>
      set rows = {person 5 ''John'' ''Robson'' 69})"
proof -
  let ?ne = "(''lastName'', Operators \<lparr>gt = None, gte = None, lt = None, lte = None,
                                     ne = Some (JStr ''Gilmore'')\<rparr>)"
  have rot: "mset [y, z, x] = mset [x, y, z]" for x y z :: "string \<times> column_entry"
    by simp
  have p: "mset [(''age'', Value (JNum 69)), ?ne, (''firstName'', Value (JStr ''John''))] =
           mset [(''firstName'', Value (JStr ''John'')), (''age'', Value (JNum 69)), ?ne]"
    by (rule rot)
  note c = select_order_independent [OF p, of examplePage "''People''"]
  have r: "\<exists>rows. fst (select examplePage ''People''
             [(''age'', Value (JNum 69)), ?ne, (''firstName'', Value (JStr ''John''))]) =
               Resolved (Rows rows) \<and> set rows = {person 5 ''John'' ''Robson'' 69}"
    using sameRows_Rows [OF c [unfolded documentation_query]] by simp
  show ?thesis
    using p c r by (intro conjI)
qed

end
